theory Spec2Isabelle
  imports Complex_Main
begin

section \<open>Python values and errors\<close>

text \<open>
  The exceptions the modelled code can raise. \<open>HookInvalid\<close> stands for whatever a
  hook handle's \<open>remove()\<close> raises when the host has invalidated the handle.
\<close>

datatype error = ValueError | IndexError | TypeError | AttributeError | HookInvalid

subsection \<open>Strings: \<open>str.strip\<close>, \<open>str.split\<close>, \<open>int\<close>\<close>

text \<open>
  Strings are byte strings. \<open>str.strip()\<close> removes Python's whitespace, of which the
  ASCII part is: tab, line feed, vertical tab, form feed, carriage return, the
  separators 0x1C to 0x1F, and space. \<open>int()\<close> on an ASCII string skips less around the
  number: the same characters without the four separators. Python's further Unicode
  whitespace and decimal digits have no counterpart here, so the definitions are those
  of the code on ASCII text.
\<close>

definition is_space :: "char \<Rightarrow> bool" where
  "is_space c = (c \<in> set [CHR 0x09, CHR 0x0A, CHR 0x0B, CHR 0x0C, CHR 0x0D,
                            CHR 0x1C, CHR 0x1D, CHR 0x1E, CHR 0x1F, CHR '' ''])"

definition is_int_space :: "char \<Rightarrow> bool" where
  "is_int_space c = (c \<in> set [CHR 0x09, CHR 0x0A, CHR 0x0B, CHR 0x0C, CHR 0x0D, CHR '' ''])"

definition is_digit :: "char \<Rightarrow> bool" where
  "is_digit c = (48 \<le> (of_char c :: nat) \<and> (of_char c :: nat) \<le> 57)"

definition digit_val :: "char \<Rightarrow> nat" where
  "digit_val c = of_char c - 48"

text \<open>Stripping the characters \<open>sp\<close> off both ends; \<open>str.strip()\<close> strips whitespace.\<close>

definition strip_by :: "(char \<Rightarrow> bool) \<Rightarrow> string \<Rightarrow> string" where
  "strip_by sp s = rev (dropWhile sp (rev (dropWhile sp s)))"

definition strip :: "string \<Rightarrow> string" where
  "strip s = strip_by is_space s"

text \<open>\<open>s.split(sep)\<close> for a one-character separator: never an empty list.\<close>

fun py_split :: "char \<Rightarrow> string \<Rightarrow> string list" where
  "py_split sep [] = [Nil]"
| "py_split sep (c # cs) =
     (if c = sep then [] # py_split sep cs
      else (c # hd (py_split sep cs)) # tl (py_split sep cs))"

text \<open>
  The digits of an integer literal as \<open>int()\<close> accepts them: decimal digits, with
  single underscores allowed between two digits.
\<close>

fun digits_ok :: "string \<Rightarrow> bool" where
  "digits_ok [] = False"
| "digits_ok [c] = is_digit c"
| "digits_ok (c # d # cs) =
     (is_digit c \<and> (if d = CHR ''_'' then digits_ok cs else digits_ok (d # cs)))"

definition digits_value :: "string \<Rightarrow> nat" where
  "digits_value s = foldl (\<lambda>acc c. 10 * acc + digit_val c) 0 (filter (\<lambda>c. c \<noteq> CHR ''_'') s)"

text \<open>\<open>int(s)\<close> on a string: surrounding whitespace, an optional sign, the digits.\<close>

definition py_int :: "string \<Rightarrow> error + int" where
  "py_int s =
     (case strip_by is_int_space s of
        [] \<Rightarrow> Inl ValueError
      | c # cs \<Rightarrow>
          if c = CHR ''-'' then
            (if digits_ok cs then Inr (- int (digits_value cs)) else Inl ValueError)
          else if c = CHR ''+'' then
            (if digits_ok cs then Inr (int (digits_value cs)) else Inl ValueError)
          else
            (if digits_ok (c # cs) then Inr (int (digits_value (c # cs))) else Inl ValueError))"

section \<open>Block-range parser\<close>

text \<open>
  One iteration of the loop over \<open>range_str.split(',')\<close>: the integers one segment adds
  to \<open>blocks\<close>. Unpacking \<open>start, end = part.split('-')\<close> raises ValueError unless there are
  exactly two pieces; \<open>range(a, b + 1)\<close> is empty when \<open>b < a\<close>.
\<close>

definition parse_part :: "string \<Rightarrow> error + int list" where
  "parse_part part0 =
     (let part = strip part0 in
      if CHR ''-'' \<in> set part then
        (case py_split (CHR ''-'') part of
           [start, end'] \<Rightarrow>
             (case py_int start of
                Inl e \<Rightarrow> Inl e
              | Inr a \<Rightarrow> (case py_int end' of Inl e \<Rightarrow> Inl e | Inr b \<Rightarrow> Inr [a..b]))
         | _ \<Rightarrow> Inl ValueError)
      else
        (case py_int part of Inl e \<Rightarrow> Inl e | Inr n \<Rightarrow> Inr [n]))"

fun parse_parts :: "string list \<Rightarrow> int list \<Rightarrow> error + int list" where
  "parse_parts [] blocks = Inr blocks"
| "parse_parts (part # parts) blocks =
     (case parse_part part of
        Inl e \<Rightarrow> Inl e
      | Inr ns \<Rightarrow> parse_parts parts (blocks @ ns))"

text \<open>\<open>sorted(set(blocks))\<close>.\<close>

definition sorted_set :: "int list \<Rightarrow> int list" where
  "sorted_set blocks = sort (remdups blocks)"

definition parse_range_str :: "string \<Rightarrow> error + int list" where
  "parse_range_str range_str =
     (case parse_parts (py_split (CHR '','') range_str) [] of
        Inl e \<Rightarrow> Inl e
      | Inr blocks \<Rightarrow> Inr (sorted_set blocks))"

subsection \<open>\<open>HuMoAudioAttentionControlV4.parse_block_range\<close>\<close>

definition range_map :: "(string \<times> string) list" where
  "range_map =
     [(''early_0-5_structure'', ''0-5''),
      (''early_0-10_body'', ''0-10''),
      (''mid_6-24_lipsync'', ''6-24''),
      (''mid_10-25_gestures'', ''10-25''),
      (''late_25-39_texture'', ''25-39''),
      (''most_0-30_aggressive'', ''0-30''),
      (''all_0-39_maximum'', ''0-39'')]"

definition ControlV4_parse_block_range :: "string \<Rightarrow> string \<Rightarrow> error + int list" where
  "ControlV4_parse_block_range preset custom_range =
     parse_range_str
       (if preset = ''custom'' then custom_range
        else (case map_of range_map preset of None \<Rightarrow> ''0-10'' | Some r \<Rightarrow> r))"

subsection \<open>\<open>HuMoAudioAttentionBoostV3.parse_block_range\<close>\<close>

text \<open>
  Here \<open>custom_range\<close> defaults to \<open>None\<close>, and the custom path is taken only for a
  non-empty string; the presets are stored as lists.
\<close>

definition ranges :: "(string \<times> int list) list" where
  "ranges =
     [(''early_0-10_body'', [0..10]),
      (''early_mid_0-20_full_body'', [0..20]),
      (''mid_10-25_gestures'', [10..25]),
      (''most_0-30_aggressive'', [0..30]),
      (''all_0-39_maximum'', [0..39])]"

definition BoostV3_parse_block_range :: "string \<Rightarrow> string option \<Rightarrow> error + int list" where
  "BoostV3_parse_block_range preset custom_range =
     (if preset = ''custom'' \<and> custom_range \<noteq> None \<and> custom_range \<noteq> Some [] then
        parse_range_str (the custom_range)
      else Inr (case map_of ranges preset of None \<Rightarrow> [0..10] | Some r \<Rightarrow> r))"

section \<open>Forward-hook callbacks\<close>

text \<open>
  What a hooked sub-module hands to its forward hook: \<open>None\<close>, a tensor, or a tuple.
  Tensors belong to the host's tensor runtime; their type \<open>'t\<close> and their product with
  a Python float, \<open>tmul\<close>, are parameters. The scale factors arrive as Python floats
  (the host's FLOAT inputs) and are modelled as reals.
\<close>

datatype 't pyval = PNone | PTensor 't | PTuple "'t pyval list"

text \<open>
  \<open>output * scale\<close> with a float \<open>scale\<close>: defined on a tensor; on a tuple (a sequence
  times a non-int) and on \<open>None\<close> Python raises TypeError.
\<close>

fun py_mul :: "('t \<Rightarrow> real \<Rightarrow> 't) \<Rightarrow> 't pyval \<Rightarrow> real \<Rightarrow> error + 't pyval" where
  "py_mul tmul (PTensor x) f = Inr (PTensor (tmul x f))"
| "py_mul tmul PNone f = Inl TypeError"
| "py_mul tmul (PTuple xs) f = Inl TypeError"

text \<open>The closure \<open>hook_fn\<close> of \<open>HuMoAudioAttentionBoostV3.create_boost_hook\<close>.\<close>

definition BoostV3_hook_fn ::
  "('t \<Rightarrow> real \<Rightarrow> 't) \<Rightarrow> real \<Rightarrow> 't pyval \<Rightarrow> error + 't pyval" where
  "BoostV3_hook_fn tmul boost_factor output =
     (case output of
        PNone \<Rightarrow> Inr PNone
      | PTuple xs \<Rightarrow>
          (case xs of
             [] \<Rightarrow> Inl IndexError
           | x # rest \<Rightarrow>
               (case py_mul tmul x boost_factor of
                  Inl e \<Rightarrow> Inl e
                | Inr boosted \<Rightarrow> Inr (PTuple (boosted # rest))))
      | PTensor x \<Rightarrow> py_mul tmul output boost_factor)"

text \<open>The closure \<open>hook\<close> of \<open>HuMoAudioAttentionControlV4.create_scale_hook\<close>.\<close>

definition ControlV4_hook ::
  "('t \<Rightarrow> real \<Rightarrow> 't) \<Rightarrow> real \<Rightarrow> 't pyval \<Rightarrow> error + 't pyval" where
  "ControlV4_hook tmul scale output = py_mul tmul output scale"

text \<open>The closure \<open>hook\<close> of \<open>create_suppress_hook\<close> inside \<open>HuMoLipsyncSuppressAttn.suppress\<close>.\<close>

definition Suppress_hook ::
  "('t \<Rightarrow> real \<Rightarrow> 't) \<Rightarrow> real \<Rightarrow> 't pyval \<Rightarrow> error + 't pyval" where
  "Suppress_hook tmul scale output = py_mul tmul output scale"

datatype attn_type = Audio | Cross | Self

datatype component = Cq | Ck | Cv | Co

text \<open>
  The hook factories return closures; a closure is kept as the factory's tag with the
  captured factor, and \<open>call\<close> runs it on the hook's \<open>output\<close> argument (the \<open>module\<close> and
  \<open>input\<close> arguments are unused by all three).
\<close>

datatype callback = BoostHook real | ScaleHook real | SuppressHook real

definition create_boost_hook :: "real \<Rightarrow> attn_type \<Rightarrow> int \<Rightarrow> component \<Rightarrow> callback" where
  "create_boost_hook boost_factor attn_type block_idx component = BoostHook boost_factor"

definition create_scale_hook :: "real \<Rightarrow> attn_type \<Rightarrow> int \<Rightarrow> component \<Rightarrow> callback" where
  "create_scale_hook scale attn_type block_idx component = ScaleHook scale"

definition create_suppress_hook :: "real \<Rightarrow> callback" where
  "create_suppress_hook scale = SuppressHook scale"

fun call :: "('t \<Rightarrow> real \<Rightarrow> 't) \<Rightarrow> callback \<Rightarrow> 't pyval \<Rightarrow> error + 't pyval" where
  "call tmul (BoostHook f) output = BoostV3_hook_fn tmul f output"
| "call tmul (ScaleHook f) output = ControlV4_hook tmul f output"
| "call tmul (SuppressHook f) output = Suppress_hook tmul f output"

fun factor :: "callback \<Rightarrow> real" where
  "factor (BoostHook f) = f"
| "factor (ScaleHook f) = f"
| "factor (SuppressHook f) = f"

section \<open>The model handle\<close>

text \<open>
  The part of the host's object graph the nodes touch. An attention sub-object is the
  set of projections it exposes (\<open>hasattr(attn, 'q')\<close> and so on); a block has each of
  its three attention paths or not. A wrapper without \<open>audio_cross_attn\<close> is possible:
  the code tests only for the wrapper.
\<close>

type_synonym attn = "component set"

record wrapper =
  audio_cross_attn :: "attn option"

record block =
  audio_cross_attn_wrapper :: "wrapper option"
  cross_attn :: "attn option"
  self_attn :: "attn option"

text \<open>
  A projection module is identified by its position: block, attention kind, component.
  The forward hooks registered on all of them are kept in one list, in registration
  order, each with the id of its handle. A handle is the id plus whether the host has
  invalidated it, in which case \<open>remove()\<close> raises.
\<close>

type_synonym site = "nat \<times> attn_type \<times> component"

type_synonym hook_entry = "nat \<times> site \<times> callback"

datatype handle = Handle (handle_id: nat) (invalid: bool)

text \<open>
  The bookkeeping attributes \<open>_attention_control_hooks\<close>, \<open>_lipsync_suppress_hooks\<close> and
  \<open>_attention_boost_hooks\<close> are \<open>None\<close> while the attribute does not exist on the model.
\<close>

record model =
  blocks :: "block list"
  forward_hooks :: "hook_entry list"
  next_id :: nat
  attention_control_hooks :: "handle list option"
  lipsync_suppress_hooks :: "handle list option"
  attention_boost_hooks :: "handle list option"

definition register_forward_hook :: "site \<Rightarrow> callback \<Rightarrow> model \<Rightarrow> handle \<times> model" where
  "register_forward_hook st cb m =
     (Handle (next_id m) False,
      m\<lparr>forward_hooks := forward_hooks m @ [(next_id m, st, cb)], next_id := Suc (next_id m)\<rparr>)"

definition remove :: "handle \<Rightarrow> model \<Rightarrow> error + model" where
  "remove h m =
     (if invalid h then Inl HookInvalid
      else Inr (m\<lparr>forward_hooks := filter (\<lambda>e. fst e \<noteq> handle_id h) (forward_hooks m)\<rparr>))"

text \<open>\<open>xs[i]\<close>, with Python's negative indices; the absolute position comes with the element.\<close>

definition py_index :: "'a list \<Rightarrow> int \<Rightarrow> error + (nat \<times> 'a)" where
  "py_index xs i =
     (let n = int (length xs); j = (if i < 0 then i + n else i)
      in if 0 \<le> j \<and> j < n then Inr (nat j, xs ! nat j) else Inl IndexError)"

text \<open>What the nodes print, one constructor for each kind of message.\<close>

datatype diag =
    Header
  | Config attn_type int int
  | BlockMissing int int
  | Patched int attn_type
  | NoAudioWrapper int
  | Registered nat
  | RemovingOld nat
  | SuppressBanner int int real
  | PatchedBlocks nat int int

text \<open>
  A \<open>for\<close> loop whose body may raise: the state reached so far is returned with the
  exception (\<open>None\<close> when the loop ran to its end).
\<close>

fun for_each :: "('a \<Rightarrow> 's \<Rightarrow> 's \<times> error option) \<Rightarrow> 'a list \<Rightarrow> 's \<Rightarrow> 's \<times> error option" where
  "for_each body [] s = (s, None)"
| "for_each body (x # xs) s =
     (case body x s of
        (s', None) \<Rightarrow> for_each body xs s'
      | (s', Some e) \<Rightarrow> (s', Some e))"

subsection \<open>Clearing the recorded hooks\<close>

datatype attr = AttentionControlHooks | LipsyncSuppressHooks | AttentionBoostHooks

fun getattr :: "model \<Rightarrow> attr \<Rightarrow> handle list option" where
  "getattr m AttentionControlHooks = attention_control_hooks m"
| "getattr m LipsyncSuppressHooks = lipsync_suppress_hooks m"
| "getattr m AttentionBoostHooks = attention_boost_hooks m"

fun setattr :: "model \<Rightarrow> attr \<Rightarrow> handle list \<Rightarrow> model" where
  "setattr m AttentionControlHooks hs = m\<lparr>attention_control_hooks := Some hs\<rparr>"
| "setattr m LipsyncSuppressHooks hs = m\<lparr>lipsync_suppress_hooks := Some hs\<rparr>"
| "setattr m AttentionBoostHooks hs = m\<lparr>attention_boost_hooks := Some hs\<rparr>"

text \<open>\<open>for hook in hooks: try: hook.remove() except: pass\<close>.\<close>

fun remove_ignoring :: "handle list \<Rightarrow> model \<Rightarrow> model" where
  "remove_ignoring [] m = m"
| "remove_ignoring (h # hs) m =
     remove_ignoring hs (case remove h m of Inl e \<Rightarrow> m | Inr m' \<Rightarrow> m')"

text \<open>\<open>for hook in hooks: hook.remove()\<close>: the first failure ends the loop.\<close>

fun remove_each :: "handle list \<Rightarrow> model \<Rightarrow> model \<times> error option" where
  "remove_each [] m = (m, None)"
| "remove_each (h # hs) m =
     (case remove h m of Inl e \<Rightarrow> (m, Some e) | Inr m' \<Rightarrow> remove_each hs m')"

text \<open>
  The clearing loop shared by \<open>apply_attention_control\<close> and \<open>suppress\<close>:
  \<open>for attr in [...]: if hasattr(model, attr): ...; setattr(model, attr, [])\<close>.
\<close>

definition clear_attr :: "attr \<Rightarrow> model \<Rightarrow> model" where
  "clear_attr a m =
     (case getattr m a of
        None \<Rightarrow> m
      | Some hooks \<Rightarrow> setattr (remove_ignoring hooks m) a [])"

definition clear_hooks :: "attr list \<Rightarrow> model \<Rightarrow> model" where
  "clear_hooks attrs m = fold clear_attr attrs m"

section \<open>The node procedures\<close>

text \<open>
  The arguments of one attention kind, as \<open>apply_attention_control\<close> and
  \<open>boost_attention\<close> receive them: \<open>enable_X\<close>, the preset \<open>X_blocks\<close>, the four factors
  \<open>X_q_scale\<close> ... \<open>X_o_scale\<close> (\<open>X_q_boost\<close> ... in the v3 node) and \<open>X_custom_range\<close>, which
  is a string in the v4 node and a string or \<open>None\<close> in the v3 node.
\<close>

record 'r kind_args =
  enable :: bool
  preset :: string
  q_scale :: real
  k_scale :: real
  v_scale :: real
  o_scale :: real
  custom_range :: 'r

subsection \<open>\<open>HuMoAudioAttentionControlV4.apply_attention_control\<close>\<close>

text \<open>
  The configuration printout of one kind reads \<open>indices[0]\<close> and \<open>indices[-1]\<close>, which
  raise IndexError on an empty list.
\<close>

definition ControlV4_print_kind :: "attn_type \<Rightarrow> bool \<Rightarrow> int list \<Rightarrow> error + diag list" where
  "ControlV4_print_kind kind en indices =
     (if en then
        (case indices of
           [] \<Rightarrow> Inl IndexError
         | _ \<Rightarrow> Inr [Config kind (hd indices) (last indices)])
      else Inr [])"

definition ControlV4_print_config ::
  "bool \<Rightarrow> int list \<Rightarrow> bool \<Rightarrow> int list \<Rightarrow> bool \<Rightarrow> int list \<Rightarrow> diag list \<times> error option" where
  "ControlV4_print_config ea ai ec ci es si =
     (case ControlV4_print_kind Audio ea ai of
        Inl e \<Rightarrow> ([Header], Some e)
      | Inr l1 \<Rightarrow>
          (case ControlV4_print_kind Cross ec ci of
             Inl e \<Rightarrow> ([Header] @ l1, Some e)
           | Inr l2 \<Rightarrow>
               (case ControlV4_print_kind Self es si of
                  Inl e \<Rightarrow> ([Header] @ l1 @ l2, Some e)
                | Inr l3 \<Rightarrow> ([Header] @ l1 @ l2 @ l3, None))))"

text \<open>
  \<open>for comp, scale in [('q', ...), ('k', ...), ('v', ...), ('o', ...)]\<close>: a hook is
  registered when \<open>scale != 1.0 and hasattr(attn, comp)\<close>.
\<close>

fun scale_components ::
  "attn_type \<Rightarrow> int \<Rightarrow> nat \<Rightarrow> attn \<Rightarrow> (component \<times> real) list \<Rightarrow>
   model \<times> handle list \<times> nat \<Rightarrow> model \<times> handle list \<times> nat" where
  "scale_components kind block_idx pos attn [] st = st"
| "scale_components kind block_idx pos attn ((component, scale) # rest) (m, hook_handles, patch_count) =
     scale_components kind block_idx pos attn rest
       (if scale \<noteq> 1 \<and> component \<in> attn then
          (case register_forward_hook (pos, kind, component)
                  (create_scale_hook scale kind block_idx component) m of
             (hook, m') \<Rightarrow> (m', hook_handles @ [hook], patch_count + 1))
        else (m, hook_handles, patch_count))"

definition comp_scales :: "'r kind_args \<Rightarrow> (component \<times> real) list" where
  "comp_scales ka = [(Cq, q_scale ka), (Ck, k_scale ka), (Cv, v_scale ka), (Co, o_scale ka)]"

text \<open>The body of \<open>for block_idx in sorted(all_blocks)\<close>.\<close>

definition control_block ::
  "string kind_args \<Rightarrow> string kind_args \<Rightarrow> string kind_args \<Rightarrow>
   int list \<Rightarrow> int list \<Rightarrow> int list \<Rightarrow> int \<Rightarrow>
   model \<times> handle list \<times> nat \<times> diag list \<Rightarrow>
   (model \<times> handle list \<times> nat \<times> diag list) \<times> error option" where
  "control_block audio cross self audio_block_indices cross_block_indices self_block_indices
       block_idx s =
     (case s of (m, hook_handles, patch_count, out) \<Rightarrow>
      if block_idx \<ge> int (length (blocks m)) then
        ((m, hook_handles, patch_count,
          out @ [BlockMissing block_idx (int (length (blocks m)) - 1)]), None)
      else
        (case py_index (blocks m) block_idx of
           Inl e \<Rightarrow> (s, Some e)
         | Inr (pos, block) \<Rightarrow>
             (case (if block_idx \<in> set audio_block_indices then
                      (case audio_cross_attn_wrapper block of
                         None \<Rightarrow> Inr (m, hook_handles, patch_count)
                       | Some w \<Rightarrow>
                           (case audio_cross_attn w of
                              None \<Rightarrow> Inl AttributeError
                            | Some audio_attn \<Rightarrow>
                                Inr (scale_components Audio block_idx pos audio_attn
                                       (comp_scales audio) (m, hook_handles, patch_count))))
                    else Inr (m, hook_handles, patch_count)) of
                Inl e \<Rightarrow> (s, Some e)
              | Inr s1 \<Rightarrow>
                  (let s2 = (if block_idx \<in> set cross_block_indices then
                               (case cross_attn block of
                                  None \<Rightarrow> s1
                                | Some ca \<Rightarrow>
                                    scale_components Cross block_idx pos ca (comp_scales cross) s1)
                             else s1);
                       s3 = (if block_idx \<in> set self_block_indices then
                               (case self_attn block of
                                  None \<Rightarrow> s2
                                | Some sa \<Rightarrow>
                                    scale_components Self block_idx pos sa (comp_scales self) s2)
                             else s2)
                   in (case s3 of (m3, hs3, pc3) \<Rightarrow> ((m3, hs3, pc3, out), None))))))"

definition ControlV4_indices :: "string kind_args \<Rightarrow> error + int list" where
  "ControlV4_indices ka =
     (if enable ka then ControlV4_parse_block_range (preset ka) (custom_range ka) else Inr [])"

text \<open>
  The procedure returns the model as it is when the procedure ends, what was printed,
  and the exception if one was raised (\<open>None\<close> for a normal return of \<open>(model,)\<close>).
\<close>

definition apply_attention_control ::
  "model \<Rightarrow> string kind_args \<Rightarrow> string kind_args \<Rightarrow> string kind_args \<Rightarrow>
   model \<times> diag list \<times> error option" where
  "apply_attention_control model audio cross self =
     (case ControlV4_indices audio of
        Inl e \<Rightarrow> (model, [], Some e)
      | Inr audio_block_indices \<Rightarrow>
     (case ControlV4_indices cross of
        Inl e \<Rightarrow> (model, [], Some e)
      | Inr cross_block_indices \<Rightarrow>
     (case ControlV4_indices self of
        Inl e \<Rightarrow> (model, [], Some e)
      | Inr self_block_indices \<Rightarrow>
     (case ControlV4_print_config (enable audio) audio_block_indices
             (enable cross) cross_block_indices (enable self) self_block_indices of
        (out0, Some e) \<Rightarrow> (model, out0, Some e)
      | (out0, None) \<Rightarrow>
     (case for_each
             (control_block audio cross self
                audio_block_indices cross_block_indices self_block_indices)
             (sorted_set (audio_block_indices @ cross_block_indices @ self_block_indices))
             (clear_hooks [AttentionControlHooks, LipsyncSuppressHooks] model, [], 0, out0) of
        ((m, hook_handles, patch_count, out), Some e) \<Rightarrow> (m, out, Some e)
      | ((m, hook_handles, patch_count, out), None) \<Rightarrow>
          (m\<lparr>attention_control_hooks := Some hook_handles\<rparr>,
           out @ [Registered patch_count], None))))))"

subsection \<open>\<open>HuMoLipsyncSuppressAttn.suppress\<close>\<close>

text \<open>The body of \<open>for block_idx in range(block_start, block_end + 1)\<close>.\<close>

definition suppress_block ::
  "real \<Rightarrow> int \<Rightarrow> model \<times> handle list \<times> int list \<Rightarrow>
   (model \<times> handle list \<times> int list) \<times> error option" where
  "suppress_block suppression_strength block_idx s =
     (case s of (m, hook_handles, patched_blocks) \<Rightarrow>
      if block_idx \<ge> int (length (blocks m)) then (s, None)
      else
        (case py_index (blocks m) block_idx of
           Inl e \<Rightarrow> (s, Some e)
         | Inr (pos, block) \<Rightarrow>
             (case audio_cross_attn_wrapper block of
                None \<Rightarrow> (s, None)
              | Some w \<Rightarrow>
                  (case audio_cross_attn w of
                     None \<Rightarrow> (s, Some AttributeError)
                   | Some audio_attn \<Rightarrow>
                       if Co \<in> audio_attn then
                         (case register_forward_hook (pos, Audio, Co)
                                 (create_suppress_hook suppression_strength) m of
                            (hook, m') \<Rightarrow>
                              ((m', hook_handles @ [hook], patched_blocks @ [block_idx]), None))
                       else (s, None)))))"

text \<open>
  The closing printout reads \<open>patched_blocks[0]\<close> and \<open>patched_blocks[-1]\<close> before the
  new handles are stored.
\<close>

definition suppress ::
  "model \<Rightarrow> bool \<Rightarrow> real \<Rightarrow> int \<Rightarrow> int \<Rightarrow> model \<times> diag list \<times> error option" where
  "suppress model enabled suppression_strength block_start block_end =
     (if \<not> enabled then (model, [], None)
      else
        (case for_each (suppress_block suppression_strength) [block_start..block_end]
                (clear_hooks [LipsyncSuppressHooks, AttentionControlHooks] model, [], []) of
           ((m, hook_handles, patched_blocks), Some e) \<Rightarrow>
             (m, [SuppressBanner block_start block_end suppression_strength], Some e)
         | ((m, hook_handles, patched_blocks), None) \<Rightarrow>
             (case patched_blocks of
                [] \<Rightarrow> (m, [SuppressBanner block_start block_end suppression_strength],
                        Some IndexError)
              | _ \<Rightarrow>
                  (m\<lparr>lipsync_suppress_hooks := Some hook_handles\<rparr>,
                   [SuppressBanner block_start block_end suppression_strength,
                    PatchedBlocks (length patched_blocks) (hd patched_blocks)
                      (last patched_blocks)],
                   None))))"

subsection \<open>\<open>HuMoAudioAttentionBoostV3.boost_attention\<close>\<close>

text \<open>
  The v3 node writes the four tests out one after the other. The cross and self
  branches also count \<open>block_patches\<close>; the audio branch has no such counter.
\<close>

definition boost_component ::
  "attn_type \<Rightarrow> int \<Rightarrow> nat \<Rightarrow> attn \<Rightarrow> component \<Rightarrow> real \<Rightarrow>
   model \<times> handle list \<times> nat \<times> nat \<Rightarrow> model \<times> handle list \<times> nat \<times> nat" where
  "boost_component kind block_idx pos attn component boost s =
     (case s of (m, hook_handles, patch_count, block_patches) \<Rightarrow>
      if boost \<noteq> 1 \<and> component \<in> attn then
        (case register_forward_hook (pos, kind, component)
                (create_boost_hook boost kind block_idx component) m of
           (hook, m') \<Rightarrow> (m', hook_handles @ [hook], patch_count + 1, block_patches + 1))
      else s)"

definition boost_components ::
  "attn_type \<Rightarrow> int \<Rightarrow> nat \<Rightarrow> attn \<Rightarrow> 'r kind_args \<Rightarrow>
   model \<times> handle list \<times> nat \<times> nat \<Rightarrow> model \<times> handle list \<times> nat \<times> nat" where
  "boost_components kind block_idx pos attn ka s =
     boost_component kind block_idx pos attn Co (o_scale ka)
       (boost_component kind block_idx pos attn Cv (v_scale ka)
          (boost_component kind block_idx pos attn Ck (k_scale ka)
             (boost_component kind block_idx pos attn Cq (q_scale ka) s)))"

text \<open>The section \<open>Audio Cross-Attention\<close> of the loop body.\<close>

definition boost_audio ::
  "'r kind_args \<Rightarrow> int list \<Rightarrow> int \<Rightarrow> nat \<Rightarrow> block \<Rightarrow>
   model \<times> handle list \<times> nat \<times> diag list \<Rightarrow>
   error + model \<times> handle list \<times> nat \<times> diag list" where
  "boost_audio audio audio_block_indices block_idx pos block s =
     (case s of (m, hook_handles, patch_count, out) \<Rightarrow>
      if block_idx \<in> set audio_block_indices then
        (case audio_cross_attn_wrapper block of
           None \<Rightarrow> Inr (m, hook_handles, patch_count, out @ [NoAudioWrapper block_idx])
         | Some w \<Rightarrow>
             (case audio_cross_attn w of
                None \<Rightarrow> Inl AttributeError
              | Some audio_attn \<Rightarrow>
                  (case boost_components Audio block_idx pos audio_attn audio
                          (m, hook_handles, patch_count, 0) of
                     (m1, hs1, pc1, bp1) \<Rightarrow>
                       Inr (m1, hs1, pc1,
                            if pc1 > 0 then out @ [Patched block_idx Audio] else out))))
      else Inr s)"

text \<open>
  The sections \<open>Text Cross-Attention\<close> and \<open>Self-Attention\<close>: the same code on
  \<open>block.cross_attn\<close> and on \<open>block.self_attn\<close>, given here as \<open>attn_opt\<close>.
\<close>

definition boost_plain ::
  "attn_type \<Rightarrow> attn option \<Rightarrow> 'r kind_args \<Rightarrow> int list \<Rightarrow> int \<Rightarrow> nat \<Rightarrow>
   model \<times> handle list \<times> nat \<times> diag list \<Rightarrow>
   model \<times> handle list \<times> nat \<times> diag list" where
  "boost_plain kind attn_opt ka indices block_idx pos s =
     (case s of (m, hook_handles, patch_count, out) \<Rightarrow>
      if block_idx \<in> set indices then
        (case attn_opt of
           None \<Rightarrow> s
         | Some attn \<Rightarrow>
             (case boost_components kind block_idx pos attn ka
                     (m, hook_handles, patch_count, 0) of
                (m2, hs2, pc2, block_patches) \<Rightarrow>
                  (m2, hs2, pc2,
                   if block_patches > 0 then out @ [Patched block_idx kind] else out)))
      else s)"

definition boost_block ::
  "string option kind_args \<Rightarrow> string option kind_args \<Rightarrow> string option kind_args \<Rightarrow>
   int list \<Rightarrow> int list \<Rightarrow> int list \<Rightarrow> int \<Rightarrow>
   model \<times> handle list \<times> nat \<times> diag list \<Rightarrow>
   (model \<times> handle list \<times> nat \<times> diag list) \<times> error option" where
  "boost_block audio cross self audio_block_indices cross_block_indices self_block_indices
       block_idx s =
     (case s of (m, hook_handles, patch_count, out) \<Rightarrow>
      if block_idx \<ge> int (length (blocks m)) then
        ((m, hook_handles, patch_count,
          out @ [BlockMissing block_idx (int (length (blocks m)) - 1)]), None)
      else
        (case py_index (blocks m) block_idx of
           Inl e \<Rightarrow> (s, Some e)
         | Inr (pos, block) \<Rightarrow>
             (case boost_audio audio audio_block_indices block_idx pos block s of
                Inl e \<Rightarrow> (s, Some e)
              | Inr s1 \<Rightarrow>
                  (boost_plain Self (self_attn block) self self_block_indices block_idx pos
                     (boost_plain Cross (cross_attn block) cross cross_block_indices
                        block_idx pos s1),
                   None))))"

definition BoostV3_indices :: "string option kind_args \<Rightarrow> error + int list" where
  "BoostV3_indices ka =
     (if enable ka then BoostV3_parse_block_range (preset ka) (custom_range ka) else Inr [])"

text \<open>
  The configuration printout of one kind takes \<open>min\<close> and \<open>max\<close> of the indices, which
  raise ValueError on an empty list.
\<close>

definition BoostV3_print_kind :: "attn_type \<Rightarrow> bool \<Rightarrow> int list \<Rightarrow> error + diag list" where
  "BoostV3_print_kind kind en indices =
     (if en then
        (case indices of
           [] \<Rightarrow> Inl ValueError
         | i # rest \<Rightarrow> Inr [Config kind (fold min rest i) (fold max rest i)])
      else Inr [])"

definition BoostV3_print_config ::
  "bool \<Rightarrow> int list \<Rightarrow> bool \<Rightarrow> int list \<Rightarrow> bool \<Rightarrow> int list \<Rightarrow> diag list \<times> error option" where
  "BoostV3_print_config ea ai ec ci es si =
     (case BoostV3_print_kind Audio ea ai of
        Inl e \<Rightarrow> ([Header], Some e)
      | Inr l1 \<Rightarrow>
          (case BoostV3_print_kind Cross ec ci of
             Inl e \<Rightarrow> ([Header] @ l1, Some e)
           | Inr l2 \<Rightarrow>
               (case BoostV3_print_kind Self es si of
                  Inl e \<Rightarrow> ([Header] @ l1 @ l2, Some e)
                | Inr l3 \<Rightarrow> ([Header] @ l1 @ l2 @ l3, None))))"

text \<open>
  The old hooks are removed first and without a \<open>try\<close>; the new handles are appended to
  the attribute, which is created empty if it does not exist.
\<close>

definition BoostV3_cleanup :: "model \<Rightarrow> model \<times> diag list \<times> error option" where
  "BoostV3_cleanup model =
     (case attention_boost_hooks model of
        None \<Rightarrow> (model, [], None)
      | Some hooks \<Rightarrow>
          (case remove_each hooks model of
             (m, Some e) \<Rightarrow> (m, [RemovingOld (length hooks)], Some e)
           | (m, None) \<Rightarrow>
               (m\<lparr>attention_boost_hooks := Some []\<rparr>, [RemovingOld (length hooks)], None)))"

definition boost_attention ::
  "model \<Rightarrow> string option kind_args \<Rightarrow> string option kind_args \<Rightarrow> string option kind_args \<Rightarrow>
   model \<times> diag list \<times> error option" where
  "boost_attention model audio cross self =
     (case BoostV3_cleanup model of
        (m0, outc, Some e) \<Rightarrow> (m0, outc, Some e)
      | (m0, outc, None) \<Rightarrow>
     (case BoostV3_indices audio of
        Inl e \<Rightarrow> (m0, outc, Some e)
      | Inr audio_block_indices \<Rightarrow>
     (case BoostV3_indices cross of
        Inl e \<Rightarrow> (m0, outc, Some e)
      | Inr cross_block_indices \<Rightarrow>
     (case BoostV3_indices self of
        Inl e \<Rightarrow> (m0, outc, Some e)
      | Inr self_block_indices \<Rightarrow>
     (case BoostV3_print_config (enable audio) audio_block_indices
             (enable cross) cross_block_indices (enable self) self_block_indices of
        (out0, Some e) \<Rightarrow> (m0, outc @ out0, Some e)
      | (out0, None) \<Rightarrow>
     (case for_each
             (boost_block audio cross self
                audio_block_indices cross_block_indices self_block_indices)
             (sorted_set (audio_block_indices @ cross_block_indices @ self_block_indices))
             (m0, [], 0, outc @ out0) of
        ((m, hook_handles, patch_count, out), Some e) \<Rightarrow> (m, out, Some e)
      | ((m, hook_handles, patch_count, out), None) \<Rightarrow>
          (m\<lparr>attention_boost_hooks :=
               Some ((case attention_boost_hooks m of None \<Rightarrow> [] | Some old \<Rightarrow> old)
                     @ hook_handles)\<rparr>,
           out @ [Registered patch_count], None)))))))"

section \<open>Well-formed range texts\<close>

text \<open>
  The inputs the statements about the custom path speak of, following the spec's
  wording: a text \<open>"a-b,c,d-e"\<close> is a non-empty list of segments joined by commas, a
  segment being one non-negative integer or a pair \<open>start-end\<close>, every integer written
  in decimal as Python's \<open>str\<close> writes it.
\<close>

definition digit_char :: "nat \<Rightarrow> char" where
  "digit_char d = ''0123456789'' ! d"

function dec :: "nat \<Rightarrow> string" where
  "dec n = (if n < 10 then [digit_char n] else dec (n div 10) @ [digit_char (n mod 10)])"
  by pat_completeness auto
termination by (relation "measure id") auto

declare dec.simps [simp del]

datatype segment = Single nat | Pair nat nat

fun seg_text :: "segment \<Rightarrow> string" where
  "seg_text (Single n) = dec n"
| "seg_text (Pair a b) = dec a @ CHR ''-'' # dec b"

fun seg_ints :: "segment \<Rightarrow> int set" where
  "seg_ints (Single n) = {int n}"
| "seg_ints (Pair a b) = {int a..int b}"

fun join_commas :: "string list \<Rightarrow> string" where
  "join_commas [] = []"
| "join_commas [s] = s"
| "join_commas (s # t # ts) = s @ CHR '','' # join_commas (t # ts)"

definition range_text :: "segment list \<Rightarrow> string" where
  "range_text segs = join_commas (map seg_text segs)"

text \<open>
  What the spec calls a segment, in full: after stripping, an integer text or two
  integer texts joined by one \<open>-\<close>. An integer text is what \<open>int()\<close> reads as a
  non-negative number: digits, single underscores allowed between digits, an optional
  \<open>+\<close> in front, whitespace allowed around. Every other segment is malformed.
\<close>

definition double_underscore :: "string \<Rightarrow> bool" where
  "double_underscore t \<longleftrightarrow> (\<exists>u v. t = u @ CHR ''_'' # CHR ''_'' # v)"

definition digit_text :: "string \<Rightarrow> bool" where
  "digit_text t \<longleftrightarrow>
     t \<noteq> [] \<and> is_digit (hd t) \<and> is_digit (last t) \<and>
     (\<forall>c\<in>set t. is_digit c \<or> c = CHR ''_'') \<and> \<not> double_underscore t"

definition integer_text :: "string \<Rightarrow> bool" where
  "integer_text s \<longleftrightarrow>
     (\<exists>pre body post.
        s = pre @ body @ post \<and>
        (\<forall>c\<in>set pre. is_int_space c) \<and> (\<forall>c\<in>set post. is_int_space c) \<and>
        (digit_text body \<or> (\<exists>t. body = CHR ''+'' # t \<and> digit_text t)))"


text \<open>The integers a segment stands for, in the order \<open>range\<close> produces them.\<close>

fun seg_list :: "segment \<Rightarrow> int list" where
  "seg_list (Single n) = [int n]"
| "seg_list (Pair a b) = [int a..int b]"

section \<open>Notions used in the statements and proofs about hooks\<close>

text \<open>
  \<open>extends P (m, hs) (m', hs')\<close>: from the model \<open>m\<close> and the handle list \<open>hs\<close> some
  registrations lead to \<open>m'\<close> and \<open>hs'\<close>. The new hooks come after the old ones and carry
  consecutive fresh ids, the list grew by exactly their handles, nothing else in the
  model changed, and every new hook satisfies \<open>P\<close>. \<open>mh\<close> reads the model and the handle
  list off a loop state.
\<close>

definition mk_handle :: "hook_entry \<Rightarrow> handle" where
  "mk_handle e = Handle (fst e) False"

definition extends ::
  "(site \<times> callback \<Rightarrow> bool) \<Rightarrow> model \<times> handle list \<Rightarrow> model \<times> handle list \<Rightarrow> bool" where
  "extends P s s' \<longleftrightarrow>
     (\<exists>new. fst s' = (fst s)\<lparr>forward_hooks := forward_hooks (fst s) @ new,
                                next_id := next_id (fst s) + length new\<rparr> \<and>
            snd s' = snd s @ map mk_handle new \<and>
            map fst new = [next_id (fst s)..<next_id (fst s) + length new] \<and>
            (\<forall>e\<in>set new. P (snd e)))"

definition mh :: "model \<times> handle list \<times> 'x \<Rightarrow> model \<times> handle list" where
  "mh s = (fst s, fst (snd s))"

text \<open>
  The ids whose hooks a tolerant clearing of a bookkeeping list drops, the model after
  the clearing step of the v4 procedures, the ids a bookkeeping list records, and the
  model after a cleanup of the v3 procedure that did not fail.
\<close>

definition removable :: "handle list option \<Rightarrow> nat set" where
  "removable hooks =
     (case hooks of None \<Rightarrow> {} | Some hs \<Rightarrow> handle_id ` {h \<in> set hs. \<not> invalid h})"

definition cleared :: "model \<Rightarrow> model" where
  "cleared m =
     m\<lparr>forward_hooks :=
         filter (\<lambda>e. fst e \<notin> removable (attention_control_hooks m) \<union>
                               removable (lipsync_suppress_hooks m)) (forward_hooks m),
       attention_control_hooks := map_option (\<lambda>_. []) (attention_control_hooks m),
       lipsync_suppress_hooks := map_option (\<lambda>_. []) (lipsync_suppress_hooks m)\<rparr>"

definition tracked_ids :: "handle list option \<Rightarrow> nat list" where
  "tracked_ids hooks = (case hooks of None \<Rightarrow> [] | Some hs \<Rightarrow> map handle_id hs)"

definition boost_cleared :: "model \<Rightarrow> model" where
  "boost_cleared m =
     m\<lparr>forward_hooks :=
         filter (\<lambda>e. fst e \<notin> set (tracked_ids (attention_boost_hooks m))) (forward_hooks m),
       attention_boost_hooks := map_option (\<lambda>_. []) (attention_boost_hooks m)\<rparr>"

text \<open>All four factors of an attention kind are 1.\<close>

definition no_scaling :: "'r kind_args \<Rightarrow> bool" where
  "no_scaling ka \<longleftrightarrow> q_scale ka = 1 \<and> k_scale ka = 1 \<and> v_scale ka = 1 \<and> o_scale ka = 1"

section \<open>Example inputs\<close>

text \<open>
  A model of two blocks, each with the three attention paths and all four projections,
  with no hook registered and no bookkeeping attribute; and the arguments of one
  attention kind, disabled, or enabled on a custom range with a factor on \<open>v\<close> only.
\<close>


definition example_block :: block where
  "example_block =
     \<lparr>audio_cross_attn_wrapper = Some \<lparr>audio_cross_attn = Some {Cq, Ck, Cv, Co}\<rparr>,
      cross_attn = Some {Cq, Ck, Cv, Co}, self_attn = Some {Cq, Ck, Cv, Co}\<rparr>"

definition example_model :: model where
  "example_model =
     \<lparr>blocks = [example_block, example_block], forward_hooks = [], next_id = 0,
      attention_control_hooks = None, lipsync_suppress_hooks = None,
      attention_boost_hooks = None\<rparr>"

definition kind_off :: "'r \<Rightarrow> 'r kind_args" where
  "kind_off r =
     \<lparr>enable = False, preset = ''custom'', q_scale = 1, k_scale = 1, v_scale = 1, o_scale = 1,
      custom_range = r\<rparr>"

definition audio_v :: "real \<Rightarrow> 'r \<Rightarrow> 'r kind_args" where
  "audio_v f r =
     \<lparr>enable = True, preset = ''custom'', q_scale = 1, k_scale = 1, v_scale = f, o_scale = 1,
      custom_range = r\<rparr>"

section \<open>Properties of the parser\<close>

lemma small_cases: "d < 10 \<Longrightarrow> d \<in> {0, 1, 2, 3, 4, 5, 6, 7, 8, 9::nat}"
  by auto

lemma digit_char: "d < 10 \<Longrightarrow> is_digit (digit_char d)"
  using small_cases [of d] by (auto simp: is_digit_def digit_char_def)

lemma digit_val_char: "d < 10 \<Longrightarrow> digit_val (digit_char d) = d"
  using small_cases [of d] by (auto simp: digit_val_def digit_char_def)

lemma digit_not_space: "is_digit c \<Longrightarrow> \<not> is_space c"
  by (auto simp: is_digit_def is_space_def)

lemma int_space_is_space: "is_int_space c \<Longrightarrow> is_space c"
  by (auto simp: is_int_space_def is_space_def)

lemma digit_not_int_space: "is_digit c \<Longrightarrow> \<not> is_int_space c"
  using digit_not_space int_space_is_space by blast

lemma digit_not_special: "is_digit c \<Longrightarrow> c \<noteq> CHR ''-'' \<and> c \<noteq> CHR ''+'' \<and> c \<noteq> CHR '','' \<and> c \<noteq> CHR ''_''"
  by (auto simp: is_digit_def)

lemma dec_digits: "c \<in> set (dec n) \<Longrightarrow> is_digit c"
  by (induction n arbitrary: c rule: dec.induct) (subst (asm) dec.simps, auto simp: digit_char split: if_splits)

lemma dec_nonempty: "dec n \<noteq> []"
  by (subst dec.simps) simp

lemma strip_by_id: "s \<noteq> [] \<Longrightarrow> \<not> sp (hd s) \<Longrightarrow> \<not> sp (last s) \<Longrightarrow> strip_by sp s = s"
proof -
  assume a: "s \<noteq> []" "\<not> sp (hd s)" "\<not> sp (last s)"
  then have 1: "dropWhile sp s = s" by (cases s) auto
  from a have "\<not> sp (hd (rev s))" by (simp add: hd_rev)
  with a have 2: "dropWhile sp (rev s) = rev s" by (cases "rev s") auto
  show ?thesis by (simp add: strip_by_def 1 2)
qed

lemma strip_id: "s \<noteq> [] \<Longrightarrow> \<not> is_space (hd s) \<Longrightarrow> \<not> is_space (last s) \<Longrightarrow> strip s = s"
  unfolding strip_def by (rule strip_by_id)

lemma all_digits_ok: "s \<noteq> [] \<Longrightarrow> \<forall>c\<in>set s. is_digit c \<Longrightarrow> digits_ok s"
proof (induction s rule: digits_ok.induct)
  case (3 c d cs)
  then have "d \<noteq> CHR ''_''" using digit_not_special [of d] by simp
  with 3 show ?case by simp
qed simp_all

lemma digits_value_snoc:
  "c \<noteq> CHR ''_'' \<Longrightarrow> digits_value (s @ [c]) = 10 * digits_value s + digit_val c"
  by (simp add: digits_value_def)

lemma digits_value_single: "c \<noteq> CHR ''_'' \<Longrightarrow> digits_value [c] = digit_val c"
  by (simp add: digits_value_def)

lemma digits_value_dec: "digits_value (dec n) = n"
proof (induction n rule: dec.induct)
  case (1 n)
  have nu: "digit_char (n mod 10) \<noteq> CHR ''_''"
    using digit_char [of "n mod 10"] digit_not_special [of "digit_char (n mod 10)"] by simp
  show ?case
  proof (cases "n < 10")
    case True
    then have "digit_char n \<noteq> CHR ''_''"
      using digit_char [of n] digit_not_special [of "digit_char n"] by simp
    with True show ?thesis
      by (subst dec.simps) (simp add: digits_value_single digit_val_char)
  next
    case False
    with 1 have "digits_value (dec (n div 10)) = n div 10" by simp
    with False show ?thesis
      by (subst dec.simps) (simp add: digits_value_snoc [OF nu] digit_val_char)
  qed
qed

lemma strip_digits: "s \<noteq> [] \<Longrightarrow> \<forall>c\<in>set s. is_digit c \<Longrightarrow> strip s = s"
  by (rule strip_id) (simp_all add: digit_not_space)

lemma int_strip_digits:
  "s \<noteq> [] \<Longrightarrow> \<forall>c\<in>set s. is_digit c \<Longrightarrow> strip_by is_int_space s = s"
  by (rule strip_by_id) (simp_all add: digit_not_int_space)

lemma py_int_digits:
  assumes "s \<noteq> []" "\<forall>c\<in>set s. is_digit c"
  shows "py_int s = Inr (int (digits_value s))"
proof -
  obtain c cs where s: "s = c # cs" using assms(1) by (cases s) auto
  with assms(2) have "is_digit c" by simp
  then have c: "c \<noteq> CHR ''-''" "c \<noteq> CHR ''+''" using digit_not_special by auto
  have "strip_by is_int_space s = c # cs" "digits_ok (c # cs)"
    using assms s int_strip_digits all_digits_ok by auto
  with c s show ?thesis
    by (simp add: py_int_def del: digits_ok.simps)
qed

lemma py_int_dec: "py_int (dec n) = Inr (int n)"
  by (simp add: py_int_digits dec_nonempty dec_digits digits_value_dec)

lemma py_split_none: "sep \<notin> set s \<Longrightarrow> py_split sep s = [s]"
  by (induction s) auto

lemma py_split_append: "sep \<notin> set a \<Longrightarrow> py_split sep (a @ sep # b) = a # py_split sep b"
  by (induction a) auto

lemma set_seg_list: "set (seg_list seg) = seg_ints seg"
  by (cases seg) auto

lemma dec_no_char: "\<not> is_digit c \<Longrightarrow> c \<notin> set (dec n)"
  using dec_digits by blast

lemma dec_no_dash: "CHR ''-'' \<notin> set (dec n)"
  by (rule dec_no_char) (simp add: is_digit_def)

lemma dec_no_comma: "CHR '','' \<notin> set (dec n)"
  by (rule dec_no_char) (simp add: is_digit_def)

lemma strip_dec: "strip (dec n) = dec n"
  by (simp add: strip_digits dec_nonempty dec_digits)

lemma strip_pair: "strip (dec a @ CHR ''-'' # dec b) = dec a @ CHR ''-'' # dec b"
proof (rule strip_id)
  show "\<not> is_space (hd (dec a @ CHR ''-'' # dec b))"
    using dec_nonempty [of a] dec_digits [of "hd (dec a)" a] by (simp add: digit_not_space)
  show "\<not> is_space (last (dec a @ CHR ''-'' # dec b))"
    using dec_nonempty [of b] dec_digits [of "last (dec b)" b] by (simp add: digit_not_space)
qed simp

lemma parse_part_seg: "parse_part (seg_text seg) = Inr (seg_list seg)"
proof (cases seg)
  case (Single n)
  then show ?thesis by (simp add: parse_part_def strip_dec dec_no_dash py_int_dec)
next
  case (Pair a b)
  have "py_split (CHR ''-'') (dec a @ CHR ''-'' # dec b) = [dec a, dec b]"
    by (simp add: py_split_append py_split_none dec_no_dash)
  with Pair show ?thesis by (simp add: parse_part_def strip_pair py_int_dec)
qed

lemma parse_parts_segs:
  "parse_parts (map seg_text segs) acc = Inr (acc @ concat (map seg_list segs))"
  by (induction segs arbitrary: acc) (simp_all add: parse_part_seg)

lemma py_split_join:
  "ss \<noteq> [] \<Longrightarrow> \<forall>s\<in>set ss. sep \<notin> set s \<Longrightarrow> sep = CHR '','' \<Longrightarrow> py_split sep (join_commas ss) = ss"
  by (induction ss rule: join_commas.induct) (simp_all add: py_split_none py_split_append)

lemma seg_text_no_comma: "CHR '','' \<notin> set (seg_text seg)"
  by (cases seg) (simp_all add: dec_no_comma)

lemma sorted_set_eq: "sorted_set xs = sorted_list_of_set (set xs)"
  by (simp add: sorted_set_def sorted_list_of_set_sort_remdups)

lemma parse_range_text:
  "segs \<noteq> [] \<Longrightarrow>
     parse_range_str (range_text segs) = Inr (sorted_list_of_set (\<Union> (seg_ints ` set segs)))"
proof -
  assume ne: "segs \<noteq> []"
  have "py_split (CHR '','') (range_text segs) = map seg_text segs"
    unfolding range_text_def using ne by (intro py_split_join) (auto simp: seg_text_no_comma)
  moreover have "set (concat (map seg_list segs)) = \<Union> (seg_ints ` set segs)"
    by (simp add: set_seg_list)
  ultimately show ?thesis
    by (simp add: parse_range_str_def parse_parts_segs sorted_set_eq)
qed

lemma range_text_nonempty: "segs \<noteq> [] \<Longrightarrow> range_text segs \<noteq> []"
proof -
  assume "segs \<noteq> []"
  then obtain x xs where "segs = x # xs" by (cases segs) auto
  moreover have "seg_text x \<noteq> []" by (cases x) (simp_all add: dec_nonempty)
  ultimately show ?thesis by (cases xs) (simp_all add: range_text_def)
qed

lemma custom_range_order_irrelevant:
  "segs \<noteq> [] \<Longrightarrow> segs' \<noteq> [] \<Longrightarrow> set segs = set segs' \<Longrightarrow>
     parse_range_str (range_text segs) = parse_range_str (range_text segs')"
  by (simp add: parse_range_text)

text \<open>
  C4. For a well-formed custom range text (comma-separated segments, each one
  non-negative integer or a pair \<open>start-end\<close>), both parsers return the ascending,
  duplicate-free list of the union of the segments' integers. The result depends on
  the set of segments only, so neither their order nor their repetition matters
  (\<open>custom_range_order_irrelevant\<close>).
\<close>

theorem custom_range_union:
  "segs \<noteq> [] \<Longrightarrow>
     ControlV4_parse_block_range ''custom'' (range_text segs)
       = Inr (sorted_list_of_set (\<Union> (seg_ints ` set segs))) \<and>
     BoostV3_parse_block_range ''custom'' (Some (range_text segs))
       = Inr (sorted_list_of_set (\<Union> (seg_ints ` set segs)))"
  by (simp add: ControlV4_parse_block_range_def BoostV3_parse_block_range_def
        parse_range_text range_text_nonempty)

theorem custom_range_union_witness:
  "[Pair 5 5, Single 5] \<noteq> [] \<and>
   ControlV4_parse_block_range ''custom'' ''5-5,5'' = Inr [5] \<and>
   BoostV3_parse_block_range ''custom'' (Some ''5-5,5'') = Inr [5]"
  using custom_range_union [of "[Pair 5 5, Single 5]"]
  by (simp add: range_text_def dec.simps digit_char_def)

lemma default_range_str: "parse_range_str ''0-10'' = Inr [0..10]"
  by code_simp

text \<open>
  C9. A preset name that is neither \<open>"custom"\<close> nor a key of the parser's preset table
  does not make the parser fail: both parsers return the default range 0 to 10.
\<close>

theorem unknown_preset_default:
  "(name \<noteq> ''custom'' \<and> name \<notin> fst ` set range_map \<longrightarrow>
      ControlV4_parse_block_range name text = Inr [0..10]) \<and>
   (name \<noteq> ''custom'' \<and> name \<notin> fst ` set ranges \<longrightarrow>
      BoostV3_parse_block_range name text3 = Inr [0..10])"
proof (intro conjI impI)
  assume a: "name \<noteq> ''custom'' \<and> name \<notin> fst ` set range_map"
  then have "map_of range_map name = None" by (simp add: map_of_eq_None_iff)
  with a show "ControlV4_parse_block_range name text = Inr [0..10]"
    by (simp add: ControlV4_parse_block_range_def default_range_str)
next
  assume a: "name \<noteq> ''custom'' \<and> name \<notin> fst ` set ranges"
  then have "map_of ranges name = None" by (simp add: map_of_eq_None_iff)
  with a show "BoostV3_parse_block_range name text3 = Inr [0..10]"
    by (simp add: BoostV3_parse_block_range_def)
qed

theorem unknown_preset_default_witness:
  "ControlV4_parse_block_range ''early_mid_0-20_full_body'' ''3'' = Inr [0..10] \<and>
   BoostV3_parse_block_range ''mid_6-24_lipsync'' (Some ''3'') = Inr [0..10]"
  using unknown_preset_default [of "''early_mid_0-20_full_body''" "''3''"]
        unknown_preset_default [of "''mid_6-24_lipsync''" _ "Some ''3''"]
  by (simp add: range_map_def ranges_def)

subsection \<open>Which texts the parser rejects\<close>

lemma py_int_error: "py_int s = Inl e \<Longrightarrow> e = ValueError"
  by (auto simp: py_int_def split: list.splits if_splits)

lemma du_short: "\<not> double_underscore []" "\<not> double_underscore [c]"
  by (auto simp: double_underscore_def Cons_eq_append_conv)

lemma du_Cons:
  "double_underscore (x # y # ys) \<longleftrightarrow>
     (x = CHR ''_'' \<and> y = CHR ''_'') \<or> double_underscore (y # ys)"
proof
  assume "double_underscore (x # y # ys)"
  then obtain u v where uv: "x # y # ys = u @ CHR ''_'' # CHR ''_'' # v"
    by (auto simp: double_underscore_def)
  show "(x = CHR ''_'' \<and> y = CHR ''_'') \<or> double_underscore (y # ys)"
  proof (cases u)
    case Nil
    with uv show ?thesis by simp
  next
    case (Cons a u')
    with uv have "y # ys = u' @ CHR ''_'' # CHR ''_'' # v" by simp
    then show ?thesis unfolding double_underscore_def by blast
  qed
next
  assume "(x = CHR ''_'' \<and> y = CHR ''_'') \<or> double_underscore (y # ys)"
  then show "double_underscore (x # y # ys)"
  proof
    assume "x = CHR ''_'' \<and> y = CHR ''_''"
    then have "x # y # ys = [] @ CHR ''_'' # CHR ''_'' # ys" by simp
    then show ?thesis unfolding double_underscore_def by blast
  next
    assume "double_underscore (y # ys)"
    then obtain u v where "y # ys = u @ CHR ''_'' # CHR ''_'' # v"
      by (auto simp: double_underscore_def)
    then have "x # y # ys = (x # u) @ CHR ''_'' # CHR ''_'' # v" by simp
    then show ?thesis unfolding double_underscore_def by blast
  qed
qed

lemma underscore_no_digit: "\<not> is_digit (CHR ''_'')"
  by (simp add: is_digit_def)

lemma digits_ok_iff: "digits_ok t \<longleftrightarrow> digit_text t"
proof (induction t rule: digits_ok.induct)
  case 1
  show ?case by (simp add: digit_text_def)
next
  case (2 c)
  show ?case by (auto simp: digit_text_def du_short)
next
  case (3 c d cs)
  show ?case
  proof (cases "d = CHR ''_''")
    case False
    with 3 have ih: "digits_ok (d # cs) \<longleftrightarrow> digit_text (d # cs)" by simp
    from False have "digit_text (c # d # cs) \<longleftrightarrow> is_digit c \<and> digit_text (d # cs)"
      using underscore_no_digit by (auto simp: digit_text_def du_Cons)
    with False ih show ?thesis by simp
  next
    case True
    with 3 have ih: "digits_ok cs \<longleftrightarrow> digit_text cs" by simp
    have "digit_text (c # CHR ''_'' # cs) \<longleftrightarrow> is_digit c \<and> digit_text cs"
    proof (cases cs)
      case Nil
      then show ?thesis using underscore_no_digit by (auto simp: digit_text_def)
    next
      case (Cons y ys)
      then show ?thesis
        using underscore_no_digit by (auto simp: digit_text_def du_Cons)
    qed
    with True ih show ?thesis by simp
  qed
qed

lemma strip_by_decomp:
  "\<exists>pre post. s = pre @ strip_by sp s @ post \<and> (\<forall>c\<in>set pre. sp c) \<and> (\<forall>c\<in>set post. sp c)"
proof -
  let ?r = "dropWhile sp s"
  have 1: "s = takeWhile sp s @ ?r" by simp
  have "rev (takeWhile sp (rev ?r) @ dropWhile sp (rev ?r)) = ?r"
    by (simp only: takeWhile_dropWhile_id rev_rev_ident)
  then have "rev (dropWhile sp (rev ?r)) @ rev (takeWhile sp (rev ?r)) = ?r"
    by (simp only: rev_append)
  then have 2: "?r = strip_by sp s @ rev (takeWhile sp (rev ?r))"
    by (simp only: strip_by_def)
  have a: "\<forall>c\<in>set (takeWhile sp s). sp c" by (auto dest: set_takeWhileD)
  have b: "\<forall>c\<in>set (rev (takeWhile sp (rev ?r))). sp c" by (auto dest: set_takeWhileD)
  from 1 2 have "s = takeWhile sp s @ strip_by sp s @ rev (takeWhile sp (rev ?r))" by simp
  with a b show ?thesis by blast
qed

lemma dropWhile_all: "\<forall>c\<in>set pre. sp c \<Longrightarrow> dropWhile sp (pre @ xs) = dropWhile sp xs"
  by (induction pre) auto

lemma strip_by_unique:
  assumes "\<forall>c\<in>set pre. sp c" "\<forall>c\<in>set post. sp c" "body \<noteq> []"
    "\<not> sp (hd body)" "\<not> sp (last body)"
  shows "strip_by sp (pre @ body @ post) = body"
proof -
  have 1: "dropWhile sp (pre @ body @ post) = body @ post"
    using assms(1,3,4) by (cases body) (simp_all add: dropWhile_all)
  have "\<forall>c\<in>set (rev post). sp c" using assms(2) by simp
  then have "dropWhile sp (rev post @ rev body) = dropWhile sp (rev body)"
    by (rule dropWhile_all)
  also have "\<dots> = rev body"
    using assms(3,5) by (cases "rev body") (auto simp: hd_rev [symmetric] simp del: hd_rev)
  finally show ?thesis by (simp add: strip_by_def 1)
qed






lemma digit_text_ends: "digit_text t \<Longrightarrow> t \<noteq> [] \<and> is_digit (hd t) \<and> is_digit (last t)"
  by (simp add: digit_text_def)

lemma py_int_accepts:
  assumes "integer_text s"
  shows "\<exists>n. py_int s = Inr n"
proof -
  from assms obtain pre body post where
    s: "s = pre @ body @ post" and pre: "\<forall>c\<in>set pre. is_int_space c"
    and post: "\<forall>c\<in>set post. is_int_space c"
    and body: "digit_text body \<or> (\<exists>t. body = CHR ''+'' # t \<and> digit_text t)"
    unfolding integer_text_def by blast
  from body show ?thesis
  proof
    assume d: "digit_text body"
    then have e: "body \<noteq> []" "is_digit (hd body)" "is_digit (last body)"
      using digit_text_ends by auto
    then have st: "strip_by is_int_space s = body"
      unfolding s using pre post by (intro strip_by_unique) (auto dest: digit_not_int_space)
    obtain c cs where b: "body = c # cs" using e(1) by (cases body) auto
    with e(2) have "c \<noteq> CHR ''-''" "c \<noteq> CHR ''+''" by (auto simp: is_digit_def)
    moreover have "digits_ok (c # cs)" using d b digits_ok_iff by simp
    ultimately show ?thesis using st b by (simp add: py_int_def del: digits_ok.simps)
  next
    assume "\<exists>t. body = CHR ''+'' # t \<and> digit_text t"
    then obtain t where b: "body = CHR ''+'' # t" and d: "digit_text t" by blast
    from d have e: "t \<noteq> []" "is_digit (last t)" using digit_text_ends by auto
    have "\<not> is_int_space (CHR ''+'')" by (simp add: is_int_space_def)
    moreover have "\<not> is_int_space (last body)" using e b by (simp add: digit_not_int_space)
    ultimately have st: "strip_by is_int_space s = body"
      unfolding s using pre post b by (intro strip_by_unique) auto
    have "digits_ok t" using d digits_ok_iff by simp
    with st b show ?thesis by (simp add: py_int_def del: digits_ok.simps)
  qed
qed

lemma strip_by_subset: "set (strip_by sp s) \<subseteq> set s"
  using strip_by_decomp [of s sp] by (metis Un_iff set_append subsetI)

lemma py_int_accepted:
  assumes "py_int s = Inr n" "CHR ''-'' \<notin> set s"
  shows "integer_text s"
proof -
  obtain pre post where
    s: "s = pre @ strip_by is_int_space s @ post" and pre: "\<forall>c\<in>set pre. is_int_space c"
    and post: "\<forall>c\<in>set post. is_int_space c"
    using strip_by_decomp [of s is_int_space] by blast
  from assms(1) obtain c cs where st: "strip_by is_int_space s = c # cs"
    by (auto simp: py_int_def split: list.splits)
  have "c \<noteq> CHR ''-''" using assms(2) strip_by_subset [of is_int_space s] st by auto
  with assms(1) st have
    "(c = CHR ''+'' \<and> digits_ok cs) \<or> (c \<noteq> CHR ''+'' \<and> digits_ok (c # cs))"
    by (auto simp: py_int_def split: if_splits simp del: digits_ok.simps)
  then have "digit_text (c # cs) \<or> (\<exists>t. c # cs = CHR ''+'' # t \<and> digit_text t)"
    using digits_ok_iff by auto
  with s pre post st show ?thesis unfolding integer_text_def by metis
qed

lemma py_int_bad_iff:
  "CHR ''-'' \<notin> set s \<Longrightarrow> py_int s = Inl ValueError \<longleftrightarrow> \<not> integer_text s"
proof -
  assume nd: "CHR ''-'' \<notin> set s"
  show ?thesis
  proof (cases "py_int s")
    case (Inl e)
    then have "e = ValueError" by (rule py_int_error)
    moreover have "\<not> integer_text s" using py_int_accepts [of s] Inl by auto
    ultimately show ?thesis using Inl by simp
  next
    case (Inr n)
    then have "integer_text s" using nd by (rule py_int_accepted)
    with Inr show ?thesis by simp
  qed
qed





lemma parse_part_error: "parse_part p = Inl e \<Longrightarrow> e = ValueError"
  by (auto simp: parse_part_def Let_def split: if_splits list.splits sum.splits dest: py_int_error)





lemma parse_range_str_error: "parse_range_str s = Inl e \<Longrightarrow> e = ValueError"
proof -
  have "parse_parts ps acc = Inl e \<Longrightarrow> e = ValueError" for ps acc
    by (induction ps arbitrary: acc) (auto split: sum.splits dest: parse_part_error)
  then show "parse_range_str s = Inl e \<Longrightarrow> e = ValueError"
    by (auto simp: parse_range_str_def split: sum.splits)
qed


text \<open>
  Some malformed texts: an empty text, an empty segment, a lone sign, a doubled
  underscore, a blank or a separator character inside a number, a third part, a
  negative number.
\<close>

lemma malformed_examples:
  "ControlV4_parse_block_range ''custom'' [] = Inl ValueError"
  "ControlV4_parse_block_range ''custom'' ''1,'' = Inl ValueError"
  "ControlV4_parse_block_range ''custom'' ''1,,3'' = Inl ValueError"
  "ControlV4_parse_block_range ''custom'' ''+'' = Inl ValueError"
  "ControlV4_parse_block_range ''custom'' ''1__2'' = Inl ValueError"
  "ControlV4_parse_block_range ''custom'' ''1 2'' = Inl ValueError"
  "ControlV4_parse_block_range ''custom'' [CHR ''1'', CHR 0x1C, CHR ''-'', CHR ''3'']
     = Inl ValueError"
  "ControlV4_parse_block_range ''custom'' ''1-2-3'' = Inl ValueError"
  "ControlV4_parse_block_range ''custom'' ''-2'' = Inl ValueError"
  "ControlV4_parse_block_range ''custom'' ''x'' = Inl ValueError"
  by code_simp+




section \<open>Properties of the hook callbacks\<close>

lemma hooks_scale_tensor:
  "call tmul (create_boost_hook f kind block_idx c) (PTensor x) = Inr (PTensor (tmul x f))"
  "call tmul (create_scale_hook f kind block_idx c) (PTensor x) = Inr (PTensor (tmul x f))"
  "call tmul (create_suppress_hook f) (PTensor x) = Inr (PTensor (tmul x f))"
  by (simp_all add: create_boost_hook_def create_scale_hook_def create_suppress_hook_def
        BoostV3_hook_fn_def ControlV4_hook_def Suppress_hook_def)

lemma boost_hook_tuple:
  "call tmul (create_boost_hook f kind block_idx c) (PTuple (PTensor x # rest))
     = Inr (PTuple (PTensor (tmul x f) # rest))"
  by (simp add: create_boost_hook_def BoostV3_hook_fn_def)

text \<open>
  C1. On a tensor all three callbacks return the tensor times the factor, and the v3
  callback rescales index 0 of a tuple and keeps the rest (the two lemmas above). The
  callbacks of \<open>create_scale_hook\<close> and \<open>create_suppress_hook\<close> multiply whatever they
  receive: on a tuple whose first element is a tensor they raise TypeError instead of
  returning the tuple with index 0 scaled.
\<close>

theorem scale_hook_tuple_raises:
  "call tmul (create_scale_hook f kind block_idx c) (PTuple (PTensor x # rest)) = Inl TypeError \<and>
   call tmul (create_suppress_hook f) (PTuple (PTensor x # rest)) = Inl TypeError"
  by (simp add: create_scale_hook_def create_suppress_hook_def ControlV4_hook_def
        Suppress_hook_def)

section \<open>Registration and clearing\<close>


lemma mh_simp [simp]: "mh (m, hs, x) = (m, hs)"
  by (simp add: mh_def)

lemma extends_refl: "extends P s s"
  unfolding extends_def by (rule exI [of _ "[]"]) simp

lemma extends_trans:
  assumes "extends P a b" "extends P b c"
  shows "extends P a c"
proof -
  from assms(1) obtain n1 where 1:
    "fst b = (fst a)\<lparr>forward_hooks := forward_hooks (fst a) @ n1, next_id := next_id (fst a) + length n1\<rparr>"
    "snd b = snd a @ map mk_handle n1"
    "map fst n1 = [next_id (fst a)..<next_id (fst a) + length n1]"
    "\<forall>e\<in>set n1. P (snd e)"
    unfolding extends_def by blast
  from assms(2) obtain n2 where 2:
    "fst c = (fst b)\<lparr>forward_hooks := forward_hooks (fst b) @ n2, next_id := next_id (fst b) + length n2\<rparr>"
    "snd c = snd b @ map mk_handle n2"
    "map fst n2 = [next_id (fst b)..<next_id (fst b) + length n2]"
    "\<forall>e\<in>set n2. P (snd e)"
    unfolding extends_def by blast
  have nb: "next_id (fst b) = next_id (fst a) + length n1" by (subst 1(1)) simp
  have fb: "forward_hooks (fst b) = forward_hooks (fst a) @ n1" by (subst 1(1)) simp
  have up: "[next_id (fst a)..<(next_id (fst a) + length n1) + length n2]
        = [next_id (fst a)..<next_id (fst a) + length n1] @
          [next_id (fst a) + length n1..<(next_id (fst a) + length n1) + length n2]"
    by (rule upt_add_eq_append) simp
  have len: "next_id (fst a) + length (n1 @ n2) = (next_id (fst a) + length n1) + length n2"
    by simp
  have ids: "map fst (n1 @ n2) = [next_id (fst a)..<next_id (fst a) + length (n1 @ n2)]"
    unfolding len up using 1(3) 2(3) nb by simp
  have m: "fst c = (fst a)\<lparr>forward_hooks := forward_hooks (fst a) @ (n1 @ n2),
                          next_id := next_id (fst a) + length (n1 @ n2)\<rparr>"
    unfolding len by (subst 2(1), subst nb, subst fb, subst 1(1)) simp
  have sn: "snd c = snd a @ map mk_handle (n1 @ n2)"
    using 1(2) 2(2) by simp
  have pp: "\<forall>e\<in>set (n1 @ n2). P (snd e)"
    using 1(4) 2(4) by auto
  show ?thesis
    unfolding extends_def using m sn ids pp by blast
qed

lemma extends_register:
  assumes "P (st, cb)"
  shows "extends P (m, hs) (snd (register_forward_hook st cb m), hs @ [fst (register_forward_hook st cb m)])"
  unfolding extends_def
  by (rule exI [of _ "[(next_id m, st, cb)]"]) (use assms in \<open>simp add: register_forward_hook_def mk_handle_def\<close>)

lemma scale_components_extends:
  "(\<And>c f. (c, f) \<in> set cs \<Longrightarrow> f \<noteq> 1 \<Longrightarrow> P ((pos, kind, c), create_scale_hook f kind block_idx c)) \<Longrightarrow>
   extends P (mh s) (mh (scale_components kind block_idx pos attn cs s))"
proof (induction cs arbitrary: s)
  case Nil
  then show ?case by (simp add: extends_refl)
next
  case (Cons cf rest)
  obtain c scale where cf: "cf = (c, scale)" by (cases cf)
  obtain m hs pc where s: "s = (m, hs, pc)" by (cases s)
  have rest: "\<And>s'. extends P (mh s') (mh (scale_components kind block_idx pos attn rest s'))"
    by (rule Cons.IH) (simp add: Cons.prems)
  show ?case
  proof (cases "scale \<noteq> 1 \<and> c \<in> attn")
    case False
    then have "scale_components kind block_idx pos attn (cf # rest) s
       = scale_components kind block_idx pos attn rest s" unfolding cf s by auto
    with rest [of s] show ?thesis by simp
  next
    case True
    let ?cb = "create_scale_hook scale kind block_idx c"
    let ?r = "register_forward_hook (pos, kind, c) ?cb m"
    from True have eq: "scale_components kind block_idx pos attn (cf # rest) s
       = scale_components kind block_idx pos attn rest (snd ?r, hs @ [fst ?r], pc + 1)"
      unfolding cf s by (simp add: case_prod_unfold)
    have "P ((pos, kind, c), ?cb)" using True Cons.prems [of c scale] cf by simp
    then have "extends P (m, hs) (snd ?r, hs @ [fst ?r])" by (rule extends_register)
    moreover have "extends P (snd ?r, hs @ [fst ?r])
        (mh (scale_components kind block_idx pos attn rest (snd ?r, hs @ [fst ?r], pc + 1)))"
      using rest [of "(snd ?r, hs @ [fst ?r], pc + 1)"] by simp
    ultimately have "extends P (m, hs)
        (mh (scale_components kind block_idx pos attn rest (snd ?r, hs @ [fst ?r], pc + 1)))"
      by (rule extends_trans)
    then show ?thesis unfolding eq by (simp add: s)
  qed
qed

lemma for_each_extends:
  assumes "\<And>x s. extends P (mh s) (mh (fst (body x s)))"
  shows "extends P (mh s) (mh (fst (for_each body xs s)))"
proof (induction xs arbitrary: s)
  case Nil
  then show ?case by (simp add: extends_refl)
next
  case (Cons x xs)
  show ?case
  proof (cases "body x s")
    case (Pair s' r)
    have 1: "extends P (mh s) (mh s')" using assms [of s x] Pair by simp
    show ?thesis
    proof (cases r)
      case None
      with Pair 1 Cons [of s'] show ?thesis using extends_trans by auto
    next
      case (Some e)
      with Pair 1 show ?thesis by simp
    qed
  qed
qed


lemma comp_scales_extends:
  assumes "\<And>pos c f. (c, f) \<in> set (comp_scales ka) \<Longrightarrow> f \<noteq> 1 \<Longrightarrow> P ((pos, kind, c), ScaleHook f)"
  shows "extends P (mh s) (mh (scale_components kind block_idx pos attn (comp_scales ka) s))"
  by (rule scale_components_extends) (simp add: assms create_scale_hook_def)

lemma control_block_extends:
  assumes A: "\<And>pos c f. (c, f) \<in> set (comp_scales audio) \<Longrightarrow> f \<noteq> 1 \<Longrightarrow> P ((pos, Audio, c), ScaleHook f)"
      and C: "\<And>pos c f. (c, f) \<in> set (comp_scales cross) \<Longrightarrow> f \<noteq> 1 \<Longrightarrow> P ((pos, Cross, c), ScaleHook f)"
      and S: "\<And>pos c f. (c, f) \<in> set (comp_scales self) \<Longrightarrow> f \<noteq> 1 \<Longrightarrow> P ((pos, Self, c), ScaleHook f)"
  shows "extends P (mh s) (mh (fst (control_block audio cross self ai ci si block_idx s)))"
proof -
  obtain m hs pc out where s: "s = (m, hs, pc, out)" by (cases s) auto
  note ea = comp_scales_extends [of audio P Audio, OF A]
  note ec = comp_scales_extends [of cross P Cross, OF C]
  note es = comp_scales_extends [of self P Self, OF S]
  show ?thesis
  proof (cases "block_idx \<ge> int (length (blocks m))")
    case True
    then show ?thesis by (simp add: s control_block_def extends_refl)
  next
    case False
    note inrange = this
    show ?thesis
    proof (cases "py_index (blocks m) block_idx")
      case (Inl e)
      with inrange show ?thesis by (simp add: s control_block_def extends_refl)
    next
      case (Inr pb)
      obtain pos block where pb: "pb = (pos, block)" by (cases pb)
      define r1 where "r1 = (if block_idx \<in> set ai then
                      (case audio_cross_attn_wrapper block of
                         None \<Rightarrow> Inr (m, hs, pc)
                       | Some w \<Rightarrow>
                           (case audio_cross_attn w of
                              None \<Rightarrow> Inl AttributeError
                            | Some audio_attn \<Rightarrow>
                                Inr (scale_components Audio block_idx pos audio_attn
                                       (comp_scales audio) (m, hs, pc))))
                    else Inr (m, hs, pc))"
      show ?thesis
      proof (cases r1)
        case (Inl e)
        with inrange Inr pb show ?thesis
          by (simp add: s control_block_def extends_refl r1_def [symmetric])
      next
        case r1: (Inr s1)
        have 1: "extends P (m, hs) (mh s1)"
          using r1 ea [of "(m, hs, pc)"] unfolding r1_def
          by (auto simp: extends_refl split: if_splits option.splits)
        define s2 where "s2 = (if block_idx \<in> set ci then
                               (case cross_attn block of
                                  None \<Rightarrow> s1
                                | Some ca \<Rightarrow>
                                    scale_components Cross block_idx pos ca (comp_scales cross) s1)
                             else s1)"
        define s3 where "s3 = (if block_idx \<in> set si then
                               (case self_attn block of
                                  None \<Rightarrow> s2
                                | Some sa \<Rightarrow>
                                    scale_components Self block_idx pos sa (comp_scales self) s2)
                             else s2)"
        have 2: "extends P (mh s1) (mh s2)"
          unfolding s2_def using ec [of s1] by (auto simp: extends_refl split: option.splits)
        have 3: "extends P (mh s2) (mh s3)"
          unfolding s3_def using es [of s2] by (auto simp: extends_refl split: option.splits)
        have res: "mh (fst (control_block audio cross self ai ci si block_idx s)) = mh s3"
          using inrange Inr pb r1
          by (simp add: s control_block_def r1_def [symmetric] Let_def s2_def [symmetric]
                s3_def [symmetric] mh_def split: prod.splits)
        have "extends P (m, hs) (mh s3)"
          by (rule extends_trans [OF extends_trans [OF 1 2] 3])
        then show ?thesis using res by (simp add: s)
      qed
    qed
  qed
qed


lemma remove_ignoring_eq:
  "remove_ignoring hs m =
     m\<lparr>forward_hooks := filter (\<lambda>e. fst e \<notin> removable (Some hs)) (forward_hooks m)\<rparr>"
proof (induction hs arbitrary: m)
  case Nil
  then show ?case by (simp add: removable_def)
next
  case (Cons h hs)
  show ?case
  proof (cases "invalid h")
    case True
    then have "removable (Some (h # hs)) = removable (Some hs)"
      by (auto simp: removable_def)
    with True Cons show ?thesis by (simp add: remove_def)
  next
    case False
    then have r: "removable (Some (h # hs)) = insert (handle_id h) (removable (Some hs))"
      by (auto simp: removable_def)
    have "filter (\<lambda>e. fst e \<notin> removable (Some hs)) (filter (\<lambda>e. fst e \<noteq> handle_id h) (forward_hooks m))
        = filter (\<lambda>e. fst e \<notin> insert (handle_id h) (removable (Some hs))) (forward_hooks m)"
      by (induction "forward_hooks m") (auto intro: filter_cong)
    with False Cons r show ?thesis by (simp add: remove_def)
  qed
qed

lemma filter_union:
  "filter (\<lambda>e. f e \<notin> B) (filter (\<lambda>e. f e \<notin> A) xs) = filter (\<lambda>e. f e \<notin> A \<union> B) xs"
  by (induction xs) auto

lemma filter_union_swap:
  "filter (\<lambda>e. f e \<notin> A) (filter (\<lambda>e. f e \<notin> B) xs) = filter (\<lambda>e. f e \<notin> A \<union> B) xs"
  by (induction xs) auto

lemma clear_hooks_control:
  "clear_hooks [AttentionControlHooks, LipsyncSuppressHooks] m = cleared m"
  by (cases "attention_control_hooks m"; cases "lipsync_suppress_hooks m")
     (simp_all add: clear_hooks_def clear_attr_def cleared_def remove_ignoring_eq filter_union
        removable_def [of None])

lemma clear_hooks_suppress:
  "clear_hooks [LipsyncSuppressHooks, AttentionControlHooks] m = cleared m"
  by (cases "attention_control_hooks m"; cases "lipsync_suppress_hooks m")
     (simp_all add: clear_hooks_def clear_attr_def cleared_def remove_ignoring_eq
        removable_def [of None] conj_commute)


lemma extendsD:
  assumes "extends P (m, hs) (m', hs')"
  obtains new where
    "m' = m\<lparr>forward_hooks := forward_hooks m @ new, next_id := next_id m + length new\<rparr>"
    "hs' = hs @ map mk_handle new"
    "map fst new = [next_id m..<next_id m + length new]"
    "\<forall>e\<in>set new. P (snd e)"
  using assms unfolding extends_def by auto

lemma apply_attention_control_normal:
  assumes run: "apply_attention_control m audio cross self = (m', out, None)"
      and A: "\<And>pos c f. (c, f) \<in> set (comp_scales audio) \<Longrightarrow> f \<noteq> 1 \<Longrightarrow> P ((pos, Audio, c), ScaleHook f)"
      and C: "\<And>pos c f. (c, f) \<in> set (comp_scales cross) \<Longrightarrow> f \<noteq> 1 \<Longrightarrow> P ((pos, Cross, c), ScaleHook f)"
      and S: "\<And>pos c f. (c, f) \<in> set (comp_scales self) \<Longrightarrow> f \<noteq> 1 \<Longrightarrow> P ((pos, Self, c), ScaleHook f)"
  shows "\<exists>new. m' = (cleared m)\<lparr>forward_hooks := forward_hooks (cleared m) @ new,
                                next_id := next_id m + length new,
                                attention_control_hooks := Some (map mk_handle new)\<rparr> \<and>
               map fst new = [next_id m..<next_id m + length new] \<and>
               (\<forall>e\<in>set new. P (snd e))"
proof -
  from run obtain ai ci si out0 ml hs pc outl where
    loop: "for_each (control_block audio cross self ai ci si) (sorted_set (ai @ ci @ si))
             (cleared m, [], 0, out0) = ((ml, hs, pc, outl), None)"
    and m': "m' = ml\<lparr>attention_control_hooks := Some hs\<rparr>"
    by (auto simp: apply_attention_control_def clear_hooks_control
          split: sum.splits prod.splits option.splits)
  have "extends P (mh (cleared m, [], 0::nat, out0))
          (mh (fst (for_each (control_block audio cross self ai ci si) (sorted_set (ai @ ci @ si))
             (cleared m, [], 0, out0))))"
    by (rule for_each_extends) (rule control_block_extends [OF A C S])
  then have "extends P (cleared m, []) (ml, hs)" by (simp add: loop)
  then obtain new where new:
    "ml = (cleared m)\<lparr>forward_hooks := forward_hooks (cleared m) @ new,
                       next_id := next_id (cleared m) + length new\<rparr>"
    "hs = [] @ map mk_handle new"
    "map fst new = [next_id (cleared m)..<next_id (cleared m) + length new]"
    "\<forall>e\<in>set new. P (snd e)"
    by (rule extendsD)
  have nid: "next_id (cleared m) = next_id m" by (simp add: cleared_def)
  show ?thesis
    by (rule exI [of _ new]) (use new m' nid in simp)
qed

lemma suppress_block_extends:
  assumes "\<And>pos. P ((pos, Audio, Co), SuppressHook f)"
  shows "extends P (mh s) (mh (fst (suppress_block f block_idx s)))"
proof -
  obtain m hs pb where s: "s = (m, hs, pb)" by (cases s) auto
  have reg: "\<And>pos. extends P (m, hs)
      (snd (register_forward_hook (pos, Audio, Co) (create_suppress_hook f) m),
       hs @ [fst (register_forward_hook (pos, Audio, Co) (create_suppress_hook f) m)])"
    by (rule extends_register) (simp add: create_suppress_hook_def assms)
  show ?thesis
    unfolding s suppress_block_def using reg
    by (auto simp: extends_refl case_prod_unfold split: sum.splits option.splits)
qed

lemma suppress_result:
  assumes run: "suppress m True f block_start block_end = (m', out, r)"
      and P: "\<And>pos. P ((pos, Audio, Co), SuppressHook f)"
  shows "\<exists>new. m' = (cleared m)\<lparr>forward_hooks := forward_hooks (cleared m) @ new,
                                next_id := next_id m + length new,
                                lipsync_suppress_hooks :=
                                  (if r = None then Some (map mk_handle new)
                                   else lipsync_suppress_hooks (cleared m))\<rparr> \<and>
               map fst new = [next_id m..<next_id m + length new] \<and>
               (\<forall>e\<in>set new. P (snd e))"
proof -
  obtain ml hs pb rl where
    loop: "for_each (suppress_block f) [block_start..block_end] (cleared m, [], [])
             = ((ml, hs, pb), rl)"
    by (cases "for_each (suppress_block f) [block_start..block_end] (cleared m, [], [])") auto
  from run loop have m': "m' = (if r = None then ml\<lparr>lipsync_suppress_hooks := Some hs\<rparr> else ml)"
    by (auto simp: suppress_def clear_hooks_suppress split: option.splits list.splits)
  have "extends P (mh (cleared m, [], []::int list))
          (mh (fst (for_each (suppress_block f) [block_start..block_end] (cleared m, [], []))))"
    by (rule for_each_extends) (rule suppress_block_extends [of P f, OF P])
  then have "extends P (cleared m, []) (ml, hs)" by (simp add: loop)
  then obtain new where new:
    "ml = (cleared m)\<lparr>forward_hooks := forward_hooks (cleared m) @ new,
                       next_id := next_id (cleared m) + length new\<rparr>"
    "hs = [] @ map mk_handle new"
    "map fst new = [next_id (cleared m)..<next_id (cleared m) + length new]"
    "\<forall>e\<in>set new. P (snd e)"
    by (rule extendsD)
  have nid: "next_id (cleared m) = next_id m" by (simp add: cleared_def)
  show ?thesis
    by (rule exI [of _ new]) (use new m' nid in simp)
qed


lemma boost_component_extends:
  assumes "boost \<noteq> 1 \<Longrightarrow> P ((pos, kind, c), BoostHook boost)"
  shows "extends P (mh s) (mh (boost_component kind block_idx pos attn c boost s))"
proof -
  obtain m hs pc bp where s: "s = (m, hs, pc, bp)" by (cases s) auto
  have reg: "boost \<noteq> 1 \<Longrightarrow> extends P (m, hs)
      (snd (register_forward_hook (pos, kind, c) (create_boost_hook boost kind block_idx c) m),
       hs @ [fst (register_forward_hook (pos, kind, c) (create_boost_hook boost kind block_idx c) m)])"
    by (rule extends_register) (simp add: create_boost_hook_def assms)
  show ?thesis
    unfolding s boost_component_def using reg
    by (auto simp: extends_refl case_prod_unfold)
qed

lemma boost_components_extends:
  assumes "\<And>c f. (c, f) \<in> set (comp_scales ka) \<Longrightarrow> f \<noteq> 1 \<Longrightarrow> P ((pos, kind, c), BoostHook f)"
  shows "extends P (mh s) (mh (boost_components kind block_idx pos attn ka s))"
proof -
  have q: "extends P (mh s) (mh (boost_component kind block_idx pos attn Cq (q_scale ka) s))"
    (is "extends P _ (mh ?s1)")
    by (rule boost_component_extends) (simp add: assms comp_scales_def)
  have k: "extends P (mh ?s1) (mh (boost_component kind block_idx pos attn Ck (k_scale ka) ?s1))"
    (is "extends P _ (mh ?s2)")
    by (rule boost_component_extends) (simp add: assms comp_scales_def)
  have v: "extends P (mh ?s2) (mh (boost_component kind block_idx pos attn Cv (v_scale ka) ?s2))"
    (is "extends P _ (mh ?s3)")
    by (rule boost_component_extends) (simp add: assms comp_scales_def)
  have o: "extends P (mh ?s3) (mh (boost_component kind block_idx pos attn Co (o_scale ka) ?s3))"
    by (rule boost_component_extends) (simp add: assms comp_scales_def)
  show ?thesis
    unfolding boost_components_def
    by (rule extends_trans [OF extends_trans [OF extends_trans [OF q k] v] o])
qed

lemma boost_audio_extends:
  assumes A: "\<And>pos c f. (c, f) \<in> set (comp_scales audio) \<Longrightarrow> f \<noteq> 1 \<Longrightarrow> P ((pos, Audio, c), BoostHook f)"
      and r: "boost_audio audio ai block_idx pos block s = Inr s1"
  shows "extends P (mh s) (mh s1)"
proof -
  obtain m hs pc out where s: "s = (m, hs, pc, out)" by (cases s) auto
  note ea = boost_components_extends [where ka = audio and P = P and kind = Audio and pos = pos
      and s = "(m, hs, pc, 0)", OF A, unfolded mh_def, simplified]
  show ?thesis
    using r unfolding s boost_audio_def
    by (auto simp: extends_refl mh_def case_prod_unfold ea split: if_splits option.splits)
qed

lemma boost_plain_extends:
  assumes A: "\<And>pos c f. (c, f) \<in> set (comp_scales ka) \<Longrightarrow> f \<noteq> 1 \<Longrightarrow> P ((pos, kind, c), BoostHook f)"
  shows "extends P (mh s) (mh (boost_plain kind attn_opt ka indices block_idx pos s))"
proof -
  obtain m hs pc out where s: "s = (m, hs, pc, out)" by (cases s) auto
  note ea = boost_components_extends [where ka = ka and P = P and kind = kind and pos = pos
      and s = "(m, hs, pc, 0)", OF A, unfolded mh_def, simplified]
  show ?thesis
    unfolding s boost_plain_def
    by (auto simp: extends_refl mh_def case_prod_unfold ea split: if_splits option.splits)
qed

lemma boost_block_extends:
  assumes A: "\<And>pos c f. (c, f) \<in> set (comp_scales audio) \<Longrightarrow> f \<noteq> 1 \<Longrightarrow> P ((pos, Audio, c), BoostHook f)"
      and C: "\<And>pos c f. (c, f) \<in> set (comp_scales cross) \<Longrightarrow> f \<noteq> 1 \<Longrightarrow> P ((pos, Cross, c), BoostHook f)"
      and S: "\<And>pos c f. (c, f) \<in> set (comp_scales self) \<Longrightarrow> f \<noteq> 1 \<Longrightarrow> P ((pos, Self, c), BoostHook f)"
  shows "extends P (mh s) (mh (fst (boost_block audio cross self ai ci si block_idx s)))"
proof -
  obtain m hs pc out where s: "s = (m, hs, pc, out)" by (cases s) auto
  show ?thesis
  proof (cases "block_idx \<ge> int (length (blocks m))")
    case True
    then show ?thesis by (simp add: s boost_block_def extends_refl)
  next
    case False
    note inrange = this
    show ?thesis
    proof (cases "py_index (blocks m) block_idx")
      case (Inl e)
      with inrange show ?thesis by (simp add: s boost_block_def extends_refl)
    next
      case (Inr pb)
      obtain pos block where pb: "pb = (pos, block)" by (cases pb)
      show ?thesis
      proof (cases "boost_audio audio ai block_idx pos block s")
        case (Inl e)
        with inrange Inr pb show ?thesis
          by (simp add: s boost_block_def extends_refl)
      next
        case r1: (Inr s1)
        let ?s2 = "boost_plain Cross (cross_attn block) cross ci block_idx pos s1"
        let ?s3 = "boost_plain Self (self_attn block) self si block_idx pos ?s2"
        have 1: "extends P (mh s) (mh s1)" by (rule boost_audio_extends [of audio P, OF A r1])
        have 2: "extends P (mh s1) (mh ?s2)" by (rule boost_plain_extends [of cross P, OF C])
        have 3: "extends P (mh ?s2) (mh ?s3)" by (rule boost_plain_extends [of self P, OF S])
        have res: "fst (boost_block audio cross self ai ci si block_idx s) = ?s3"
          using inrange Inr pb r1 by (simp add: s boost_block_def)
        show ?thesis unfolding res
          by (rule extends_trans [OF extends_trans [OF 1 2] 3])
      qed
    qed
  qed
qed

lemma remove_each_ok:
  "remove_each hs m = (m', None) \<Longrightarrow>
     (\<forall>h\<in>set hs. \<not> invalid h) \<and>
     m' = m\<lparr>forward_hooks := filter (\<lambda>e. fst e \<notin> handle_id ` set hs) (forward_hooks m)\<rparr>"
proof (induction hs arbitrary: m)
  case Nil
  then show ?case by simp
next
  case (Cons h hs)
  from Cons.prems have v: "\<not> invalid h"
    by (auto simp: remove_def split: if_splits)
  let ?m1 = "m\<lparr>forward_hooks := filter (\<lambda>e. fst e \<noteq> handle_id h) (forward_hooks m)\<rparr>"
  from Cons.prems v have "remove_each hs ?m1 = (m', None)" by (simp add: remove_def)
  from Cons.IH [OF this] have ih: "\<forall>h\<in>set hs. \<not> invalid h"
    "m' = ?m1\<lparr>forward_hooks := filter (\<lambda>e. fst e \<notin> handle_id ` set hs) (forward_hooks ?m1)\<rparr>"
    by auto
  have "filter (\<lambda>e. fst e \<notin> handle_id ` set hs) (filter (\<lambda>e. fst e \<noteq> handle_id h) (forward_hooks m))
      = filter (\<lambda>e. fst e \<notin> handle_id ` set (h # hs)) (forward_hooks m)"
    by (induction "forward_hooks m") (auto intro: filter_cong)
  with ih v show ?case by simp
qed


lemma BoostV3_cleanup_ok:
  assumes "BoostV3_cleanup m = (m0, outc, None)"
  shows "m0 = boost_cleared m"
    and "attention_boost_hooks m = Some hs \<Longrightarrow> h \<in> set hs \<Longrightarrow> \<not> invalid h"
proof -
  show "m0 = boost_cleared m"
  proof (cases "attention_boost_hooks m")
    case None
    with assms show ?thesis
      by (simp add: BoostV3_cleanup_def boost_cleared_def tracked_ids_def)
  next
    case (Some hooks)
    with assms obtain mr where mr: "remove_each hooks m = (mr, None)"
      "m0 = mr\<lparr>attention_boost_hooks := Some []\<rparr>"
      by (auto simp: BoostV3_cleanup_def split: prod.splits option.splits)
    from remove_each_ok [OF mr(1)] mr(2) Some show ?thesis
      by (simp add: boost_cleared_def tracked_ids_def)
  qed
  show "attention_boost_hooks m = Some hs \<Longrightarrow> h \<in> set hs \<Longrightarrow> \<not> invalid h"
  proof -
    assume a: "attention_boost_hooks m = Some hs" "h \<in> set hs"
    with assms obtain mr where "remove_each hs m = (mr, None)"
      by (auto simp: BoostV3_cleanup_def split: prod.splits option.splits)
    from remove_each_ok [OF this] a show ?thesis by simp
  qed
qed

lemma boost_attention_normal:
  assumes run: "boost_attention m audio cross self = (m', out, None)"
      and A: "\<And>pos c f. (c, f) \<in> set (comp_scales audio) \<Longrightarrow> f \<noteq> 1 \<Longrightarrow> P ((pos, Audio, c), BoostHook f)"
      and C: "\<And>pos c f. (c, f) \<in> set (comp_scales cross) \<Longrightarrow> f \<noteq> 1 \<Longrightarrow> P ((pos, Cross, c), BoostHook f)"
      and S: "\<And>pos c f. (c, f) \<in> set (comp_scales self) \<Longrightarrow> f \<noteq> 1 \<Longrightarrow> P ((pos, Self, c), BoostHook f)"
  shows "\<exists>new. m' = (boost_cleared m)\<lparr>forward_hooks := forward_hooks (boost_cleared m) @ new,
                                next_id := next_id m + length new,
                                attention_boost_hooks := Some (map mk_handle new)\<rparr> \<and>
               map fst new = [next_id m..<next_id m + length new] \<and>
               (\<forall>e\<in>set new. P (snd e))"
proof -
  from run obtain m0 outc ai ci si out0 ml hs pc outl where
    cl: "BoostV3_cleanup m = (m0, outc, None)" and
    loop: "for_each (boost_block audio cross self ai ci si) (sorted_set (ai @ ci @ si))
             (m0, [], 0, outc @ out0) = ((ml, hs, pc, outl), None)"
    and m': "m' = ml\<lparr>attention_boost_hooks :=
               Some ((case attention_boost_hooks ml of None \<Rightarrow> [] | Some old \<Rightarrow> old) @ hs)\<rparr>"
    by (auto simp: boost_attention_def split: sum.splits prod.splits option.splits)
  have m0: "m0 = boost_cleared m" using cl by (rule BoostV3_cleanup_ok)
  have "extends P (mh (m0, [], 0::nat, outc @ out0))
          (mh (fst (for_each (boost_block audio cross self ai ci si) (sorted_set (ai @ ci @ si))
             (m0, [], 0, outc @ out0))))"
    by (rule for_each_extends) (rule boost_block_extends [OF A C S])
  then have "extends P (m0, []) (ml, hs)" by (simp add: loop)
  then obtain new where new:
    "ml = m0\<lparr>forward_hooks := forward_hooks m0 @ new, next_id := next_id m0 + length new\<rparr>"
    "hs = [] @ map mk_handle new"
    "map fst new = [next_id m0..<next_id m0 + length new]"
    "\<forall>e\<in>set new. P (snd e)"
    by (rule extendsD)
  have nid: "next_id m0 = next_id m" by (simp add: m0 boost_cleared_def)
  have old: "(case attention_boost_hooks ml of None \<Rightarrow> [] | Some old \<Rightarrow> old) = []"
    by (cases "attention_boost_hooks m") (simp_all add: new(1) m0 boost_cleared_def)
  show ?thesis
    by (rule exI [of _ new]) (use new m' nid old m0 in simp)
qed


lemma no_scaling_comp: "no_scaling ka \<Longrightarrow> (c, f) \<in> set (comp_scales ka) \<Longrightarrow> f = 1"
  by (auto simp: no_scaling_def comp_scales_def)

lemma tracked_mk_handle: "tracked_ids (Some (map mk_handle new)) = map fst new"
  by (simp add: tracked_ids_def mk_handle_def comp_def)

lemma removable_mk_handle: "removable (Some (map mk_handle new)) = set (map fst new)"
proof -
  have "{h \<in> set (map mk_handle new). \<not> invalid h} = mk_handle ` set new"
    by (auto simp: mk_handle_def)
  then show ?thesis
    by (simp add: removable_def image_image mk_handle_def)
qed

lemma removable_emptied: "removable (map_option (\<lambda>_. []) hooks) = {}"
  by (cases hooks) (simp_all add: removable_def)

lemma map_fst_filter: "map fst (filter (\<lambda>e. fst e \<notin> S) xs) = filter (\<lambda>i. i \<notin> S) (map fst xs)"
  by (induction xs) auto

text \<open>
  The hooks after a run that first dropped the hooks with the ids \<open>ids1\<close>, all issued
  before, and then registered \<open>new\<close>.
\<close>

lemma second_run:
  assumes m2: "forward_hooks m2 = filter (\<lambda>e. fst e \<notin> set ids1) (forward_hooks m1) @ new"
      and ids1: "set ids1 \<subseteq> {..<nid}"
      and new: "map fst new = [nid..<nid + length new]"
  shows "\<forall>e\<in>set (forward_hooks m2). fst e \<notin> set ids1"
    and "map fst (forward_hooks m2) = filter (\<lambda>i. i \<notin> set ids1) (map fst (forward_hooks m1)) @ map fst new"
proof -
  have "\<forall>e\<in>set new. fst e \<notin> set ids1"
  proof
    fix e assume "e \<in> set new"
    then have "fst e \<in> set (map fst new)" by simp
    then have "nid \<le> fst e" unfolding new by simp
    with ids1 show "fst e \<notin> set ids1" by auto
  qed
  then show "\<forall>e\<in>set (forward_hooks m2). fst e \<notin> set ids1"
    by (auto simp: m2)
  show "map fst (forward_hooks m2) = filter (\<lambda>i. i \<notin> set ids1) (map fst (forward_hooks m1)) @ map fst new"
    by (simp add: m2 map_fst_filter)
qed

lemma control_once:
  assumes r1: "apply_attention_control m a1 c1 s1 = (m1, out1, None)"
  shows "tracked_ids (attention_control_hooks m1) = [next_id m..<next_id m1]"
    and "map fst (forward_hooks m1) =
           map fst (forward_hooks (clear_hooks [AttentionControlHooks, LipsyncSuppressHooks] m))
           @ tracked_ids (attention_control_hooks m1)"
    and "forward_hooks (cleared m1) =
           filter (\<lambda>e. fst e \<notin> set (tracked_ids (attention_control_hooks m1))) (forward_hooks m1)"
    and "lipsync_suppress_hooks m1 = map_option (\<lambda>_. []) (lipsync_suppress_hooks m)"
    and "attention_control_hooks m1 \<noteq> None"
proof -
  from apply_attention_control_normal [OF r1, of "\<lambda>_. True"] obtain new1 where
    m1: "m1 = (cleared m)\<lparr>forward_hooks := forward_hooks (cleared m) @ new1,
                          next_id := next_id m + length new1,
                          attention_control_hooks := Some (map mk_handle new1)\<rparr>"
    and n1: "map fst new1 = [next_id m..<next_id m + length new1]"
    by auto
  have a: "attention_control_hooks m1 = Some (map mk_handle new1)" by (simp add: m1)
  then show "attention_control_hooks m1 \<noteq> None" by simp
  show l: "lipsync_suppress_hooks m1 = map_option (\<lambda>_. []) (lipsync_suppress_hooks m)"
    by (simp add: m1 cleared_def)
  have nid: "next_id m1 = next_id m + length new1" by (simp add: m1)
  show "tracked_ids (attention_control_hooks m1) = [next_id m..<next_id m1]"
    by (simp add: a tracked_mk_handle n1 nid)
  show "map fst (forward_hooks m1) =
           map fst (forward_hooks (clear_hooks [AttentionControlHooks, LipsyncSuppressHooks] m))
           @ tracked_ids (attention_control_hooks m1)"
    by (simp add: a tracked_mk_handle clear_hooks_control m1)
  show "forward_hooks (cleared m1) =
           filter (\<lambda>e. fst e \<notin> set (tracked_ids (attention_control_hooks m1))) (forward_hooks m1)"
    by (simp add: cleared_def [of m1] l removable_emptied a removable_mk_handle tracked_mk_handle)
qed

lemma control_after:
  assumes c1: "forward_hooks (cleared m1) = filter (\<lambda>e. fst e \<notin> set ids1) (forward_hooks m1)"
      and ids1: "set ids1 \<subseteq> {..<next_id m1}"
      and r2: "apply_attention_control m1 a2 c2 s2 = (m2, out2, None)"
  shows "\<forall>e\<in>set (forward_hooks m2). fst e \<notin> set ids1"
    and "map fst (forward_hooks m2) =
           filter (\<lambda>i. i \<notin> set ids1) (map fst (forward_hooks m1))
           @ tracked_ids (attention_control_hooks m2)"
    and "no_scaling a2 \<Longrightarrow> no_scaling c2 \<Longrightarrow> no_scaling s2 \<Longrightarrow>
           attention_control_hooks m2 = Some [] \<and>
           forward_hooks m2 = filter (\<lambda>e. fst e \<notin> set ids1) (forward_hooks m1)"
proof -
  from apply_attention_control_normal [OF r2, of "\<lambda>_. True"] obtain new2 where
    m2: "m2 = (cleared m1)\<lparr>forward_hooks := forward_hooks (cleared m1) @ new2,
                          next_id := next_id m1 + length new2,
                          attention_control_hooks := Some (map mk_handle new2)\<rparr>"
    and n2: "map fst new2 = [next_id m1..<next_id m1 + length new2]"
    by auto
  have f2: "forward_hooks m2 = filter (\<lambda>e. fst e \<notin> set ids1) (forward_hooks m1) @ new2"
    by (simp add: m2 c1)
  have a2: "tracked_ids (attention_control_hooks m2) = map fst new2"
    by (simp add: m2 tracked_mk_handle)
  from second_run [OF f2 ids1 n2]
  show "\<forall>e\<in>set (forward_hooks m2). fst e \<notin> set ids1"
    and "map fst (forward_hooks m2) =
           filter (\<lambda>i. i \<notin> set ids1) (map fst (forward_hooks m1))
           @ tracked_ids (attention_control_hooks m2)"
    by (simp_all add: a2)
  show "attention_control_hooks m2 = Some [] \<and>
           forward_hooks m2 = filter (\<lambda>e. fst e \<notin> set ids1) (forward_hooks m1)"
    if ns: "no_scaling a2" "no_scaling c2" "no_scaling s2"
  proof -
    from apply_attention_control_normal [OF r2, of "\<lambda>_. False"] ns obtain new where
      m2': "m2 = (cleared m1)\<lparr>forward_hooks := forward_hooks (cleared m1) @ new,
                          next_id := next_id m1 + length new,
                          attention_control_hooks := Some (map mk_handle new)\<rparr>"
      and nf: "\<forall>e\<in>set new. False"
      using no_scaling_comp by blast
    have "new = []"
    proof (rule ccontr)
      assume "new \<noteq> []"
      then have "hd new \<in> set new" by simp
      from bspec [OF nf this] show False .
    qed
    with m2' c1 show ?thesis by simp
  qed
qed

lemma suppress_once:
  assumes r1: "suppress m True f block_start block_end = (m1, out1, None)"
  shows "tracked_ids (lipsync_suppress_hooks m1) = [next_id m..<next_id m1]"
    and "forward_hooks (cleared m1) =
           filter (\<lambda>e. fst e \<notin> set (tracked_ids (lipsync_suppress_hooks m1))) (forward_hooks m1)"
    and "lipsync_suppress_hooks m1 \<noteq> None"
    and "map fst (forward_hooks m1) =
           map fst (forward_hooks (clear_hooks [LipsyncSuppressHooks, AttentionControlHooks] m))
           @ tracked_ids (lipsync_suppress_hooks m1)"
proof -
  from suppress_result [OF r1, of "\<lambda>_. True"] obtain new1 where
    m1: "m1 = (cleared m)\<lparr>forward_hooks := forward_hooks (cleared m) @ new1,
                          next_id := next_id m + length new1,
                          lipsync_suppress_hooks := Some (map mk_handle new1)\<rparr>"
    and n1: "map fst new1 = [next_id m..<next_id m + length new1]"
    by auto
  have l: "lipsync_suppress_hooks m1 = Some (map mk_handle new1)" by (simp add: m1)
  then show "lipsync_suppress_hooks m1 \<noteq> None" by simp
  show "map fst (forward_hooks m1) =
           map fst (forward_hooks (clear_hooks [LipsyncSuppressHooks, AttentionControlHooks] m))
           @ tracked_ids (lipsync_suppress_hooks m1)"
    by (simp add: l tracked_mk_handle clear_hooks_suppress m1)
  have a: "attention_control_hooks m1 = map_option (\<lambda>_. []) (attention_control_hooks m)"
    by (simp add: m1 cleared_def)
  have nid: "next_id m1 = next_id m + length new1" by (simp add: m1)
  show "tracked_ids (lipsync_suppress_hooks m1) = [next_id m..<next_id m1]"
    by (simp add: l tracked_mk_handle n1 nid)
  show "forward_hooks (cleared m1) =
           filter (\<lambda>e. fst e \<notin> set (tracked_ids (lipsync_suppress_hooks m1))) (forward_hooks m1)"
    by (simp add: cleared_def [of m1] l removable_emptied a removable_mk_handle tracked_mk_handle)
qed

lemma suppress_after:
  assumes c1: "forward_hooks (cleared m1) = filter (\<lambda>e. fst e \<notin> set ids1) (forward_hooks m1)"
      and ids1: "set ids1 \<subseteq> {..<next_id m1}"
      and r2: "suppress m1 True f block_start block_end = (m2, out2, r)"
  shows "\<forall>e\<in>set (forward_hooks m2). fst e \<notin> set ids1"
    and "attention_control_hooks m2 = map_option (\<lambda>_. []) (attention_control_hooks m1)"
    and "r = None \<Longrightarrow> map fst (forward_hooks m2) =
           filter (\<lambda>i. i \<notin> set ids1) (map fst (forward_hooks m1))
           @ tracked_ids (lipsync_suppress_hooks m2)"
proof -
  from suppress_result [OF r2, of "\<lambda>_. True"] obtain new2 where
    m2: "m2 = (cleared m1)\<lparr>forward_hooks := forward_hooks (cleared m1) @ new2,
                          next_id := next_id m1 + length new2,
                          lipsync_suppress_hooks :=
                            (if r = None then Some (map mk_handle new2)
                             else lipsync_suppress_hooks (cleared m1))\<rparr>"
    and n2: "map fst new2 = [next_id m1..<next_id m1 + length new2]"
    by auto
  have f2: "forward_hooks m2 = filter (\<lambda>e. fst e \<notin> set ids1) (forward_hooks m1) @ new2"
    by (simp add: m2 c1)
  show "attention_control_hooks m2 = map_option (\<lambda>_. []) (attention_control_hooks m1)"
    by (simp add: m2 cleared_def)
  from second_run [OF f2 ids1 n2]
  show "\<forall>e\<in>set (forward_hooks m2). fst e \<notin> set ids1"
    and "r = None \<Longrightarrow> map fst (forward_hooks m2) =
           filter (\<lambda>i. i \<notin> set ids1) (map fst (forward_hooks m1))
           @ tracked_ids (lipsync_suppress_hooks m2)"
    by (simp_all add: m2 tracked_mk_handle)
qed

lemma boost_once:
  assumes r1: "boost_attention m a1 c1 s1 = (m1, out1, None)"
  shows "tracked_ids (attention_boost_hooks m1) = [next_id m..<next_id m1]"
    and "map fst (forward_hooks m1) =
           filter (\<lambda>i. i \<notin> set (tracked_ids (attention_boost_hooks m))) (map fst (forward_hooks m))
           @ tracked_ids (attention_boost_hooks m1)"
proof -
  from boost_attention_normal [OF r1, of "\<lambda>_. True"] obtain new1 where
    m1: "m1 = (boost_cleared m)\<lparr>forward_hooks := forward_hooks (boost_cleared m) @ new1,
                          next_id := next_id m + length new1,
                          attention_boost_hooks := Some (map mk_handle new1)\<rparr>"
    and n1: "map fst new1 = [next_id m..<next_id m + length new1]"
    by auto
  have a: "attention_boost_hooks m1 = Some (map mk_handle new1)" by (simp add: m1)
  have nid: "next_id m1 = next_id m + length new1" by (simp add: m1)
  show "tracked_ids (attention_boost_hooks m1) = [next_id m..<next_id m1]"
    by (simp add: a tracked_mk_handle n1 nid)
  show "map fst (forward_hooks m1) =
           filter (\<lambda>i. i \<notin> set (tracked_ids (attention_boost_hooks m))) (map fst (forward_hooks m))
           @ tracked_ids (attention_boost_hooks m1)"
    by (simp add: a tracked_mk_handle m1 boost_cleared_def map_fst_filter)
qed

lemma boost_after:
  assumes ids1: "set (tracked_ids (attention_boost_hooks m1)) \<subseteq> {..<next_id m1}"
      and r2: "boost_attention m1 a2 c2 s2 = (m2, out2, None)"
  shows "\<forall>e\<in>set (forward_hooks m2). fst e \<notin> set (tracked_ids (attention_boost_hooks m1))"
    and "map fst (forward_hooks m2) =
           filter (\<lambda>i. i \<notin> set (tracked_ids (attention_boost_hooks m1))) (map fst (forward_hooks m1))
           @ tracked_ids (attention_boost_hooks m2)"
    and "no_scaling a2 \<Longrightarrow> no_scaling c2 \<Longrightarrow> no_scaling s2 \<Longrightarrow>
           attention_boost_hooks m2 = Some [] \<and>
           forward_hooks m2 =
             filter (\<lambda>e. fst e \<notin> set (tracked_ids (attention_boost_hooks m1))) (forward_hooks m1)"
proof -
  from boost_attention_normal [OF r2, of "\<lambda>_. True"] obtain new2 where
    m2: "m2 = (boost_cleared m1)\<lparr>forward_hooks := forward_hooks (boost_cleared m1) @ new2,
                          next_id := next_id m1 + length new2,
                          attention_boost_hooks := Some (map mk_handle new2)\<rparr>"
    and n2: "map fst new2 = [next_id m1..<next_id m1 + length new2]"
    by auto
  have f2: "forward_hooks m2 =
      filter (\<lambda>e. fst e \<notin> set (tracked_ids (attention_boost_hooks m1))) (forward_hooks m1) @ new2"
    by (simp add: m2 boost_cleared_def)
  have a2: "tracked_ids (attention_boost_hooks m2) = map fst new2"
    by (simp add: m2 tracked_mk_handle)
  from second_run [OF f2 ids1 n2]
  show "\<forall>e\<in>set (forward_hooks m2). fst e \<notin> set (tracked_ids (attention_boost_hooks m1))"
    and "map fst (forward_hooks m2) =
           filter (\<lambda>i. i \<notin> set (tracked_ids (attention_boost_hooks m1))) (map fst (forward_hooks m1))
           @ tracked_ids (attention_boost_hooks m2)"
    by (simp_all add: a2)
  show "attention_boost_hooks m2 = Some [] \<and>
           forward_hooks m2 =
             filter (\<lambda>e. fst e \<notin> set (tracked_ids (attention_boost_hooks m1))) (forward_hooks m1)"
    if ns: "no_scaling a2" "no_scaling c2" "no_scaling s2"
  proof -
    from boost_attention_normal [OF r2, of "\<lambda>_. False"] ns obtain new where
      m2': "m2 = (boost_cleared m1)\<lparr>forward_hooks := forward_hooks (boost_cleared m1) @ new,
                          next_id := next_id m1 + length new,
                          attention_boost_hooks := Some (map mk_handle new)\<rparr>"
      and nf: "\<forall>e\<in>set new. False"
      using no_scaling_comp by blast
    have "new = []"
    proof (rule ccontr)
      assume "new \<noteq> []"
      then have "hd new \<in> set new" by simp
      from bspec [OF nf this] show False .
    qed
    with m2' show ?thesis by (simp add: boost_cleared_def)
  qed
qed

lemma upt_below: "set [a..<b] \<subseteq> {..<b}"
  by auto

text \<open>
  The hooks a normal run of the v4 or the v3 procedure registers never carry the
  factor 1: the hooks after the run are those left by the clearing step followed by
  new ones, each with a factor other than 1.
\<close>

lemma control_attaches_no_identity:
  assumes "apply_attention_control m audio cross self = (m', out, None)"
  shows "\<exists>new. forward_hooks m' =
           forward_hooks (clear_hooks [AttentionControlHooks, LipsyncSuppressHooks] m) @ new \<and>
           (\<forall>e\<in>set new. factor (snd (snd e)) \<noteq> 1)"
proof -
  from apply_attention_control_normal [OF assms, of "\<lambda>x. factor (snd x) \<noteq> 1"] obtain new where
    "m' = (cleared m)\<lparr>forward_hooks := forward_hooks (cleared m) @ new,
                        next_id := next_id m + length new,
                        attention_control_hooks := Some (map mk_handle new)\<rparr>"
    "\<forall>e\<in>set new. factor (snd (snd e)) \<noteq> 1"
    by auto
  then show ?thesis by (intro exI [of _ new]) (simp add: clear_hooks_control)
qed

lemma boost_attaches_no_identity:
  assumes "boost_attention m audio cross self = (m', out, None)"
  shows "\<exists>new. forward_hooks m' =
           filter (\<lambda>e. fst e \<notin> set (tracked_ids (attention_boost_hooks m))) (forward_hooks m)
           @ new \<and>
           (\<forall>e\<in>set new. factor (snd (snd e)) \<noteq> 1)"
proof -
  from boost_attention_normal [OF assms, of "\<lambda>x. factor (snd x) \<noteq> 1"] obtain new where
    "m' = (boost_cleared m)\<lparr>forward_hooks := forward_hooks (boost_cleared m) @ new,
                        next_id := next_id m + length new,
                        attention_boost_hooks := Some (map mk_handle new)\<rparr>"
    "\<forall>e\<in>set new. factor (snd (snd e)) \<noteq> 1"
    by auto
  then show ?thesis by (intro exI [of _ new]) (simp add: boost_cleared_def)
qed

text \<open>
  In the v4 and the v3 loop a block index at or beyond the number of blocks prints the
  diagnostic, changes nothing else and lets the loop go on.
\<close>

lemma control_block_out_of_range:
  "int (length (blocks m)) \<le> block_idx \<Longrightarrow>
     control_block audio cross self ai ci si block_idx (m, hs, pc, out)
       = ((m, hs, pc, out @ [BlockMissing block_idx (int (length (blocks m)) - 1)]), None)"
  by (simp add: control_block_def)

lemma boost_block_out_of_range:
  "int (length (blocks m)) \<le> block_idx \<Longrightarrow>
     boost_block audio cross self ai ci si block_idx (m, hs, pc, out)
       = ((m, hs, pc, out @ [BlockMissing block_idx (int (length (blocks m)) - 1)]), None)"
  by (simp add: boost_block_def)

text \<open>
  The clearing step of \<open>apply_attention_control\<close> and \<open>suppress\<close> cannot raise: it drops
  the hooks of the handles that can be removed and passes over the others.
\<close>

lemma clear_hooks_passes_invalid:
  "forward_hooks (clear_hooks [AttentionControlHooks, LipsyncSuppressHooks] m) =
     filter (\<lambda>e. fst e \<notin> removable (attention_control_hooks m) \<union>
                           removable (lipsync_suppress_hooks m)) (forward_hooks m)"
  "clear_hooks [LipsyncSuppressHooks, AttentionControlHooks] m =
     clear_hooks [AttentionControlHooks, LipsyncSuppressHooks] m"
  by (simp_all add: clear_hooks_control clear_hooks_suppress cleared_def)

text \<open>
  A failure of the parser ends the procedure where it occurs: in the v4 node that is
  before the clearing step, so the model is as it was; in the v3 node the cleanup has
  already run.
\<close>

lemma control_parse_failure_keeps_model:
  "ControlV4_indices audio = Inl e \<Longrightarrow>
     apply_attention_control m audio cross self = (m, [], Some e)"
  by (simp add: apply_attention_control_def)

lemma boost_parse_failure_after_cleanup:
  "BoostV3_cleanup m = (m0, outc, None) \<Longrightarrow> BoostV3_indices audio = Inl e \<Longrightarrow>
     boost_attention m audio cross self = (m0, outc, Some e)"
  by (simp add: boost_attention_def)

section \<open>Properties of the node procedures\<close>

text \<open>
  C10. With \<open>enabled\<close> false, \<open>suppress\<close> returns the model it was given at once: the
  forward hooks and the three bookkeeping attributes are as before, whatever they
  held, and nothing is printed.
\<close>

theorem suppress_disabled_unchanged:
  "suppress model False suppression_strength block_start block_end = (model, [], None)"
  by (simp add: suppress_def)

text \<open>
  C2, amended. Two successive normal returns of the same procedure, the second on the
  model the first returned (v4 node, v3 node, and \<open>suppress\<close> with \<open>enabled\<close> true). The
  second run removes every hook the first attached: no hook left afterwards has an id
  the first run recorded. After each run the bookkeeping list holds exactly the
  handles issued during that run, and the hooks on the model are the survivors of the
  clearing followed by exactly these. In the v4 and v3 nodes, if every factor of the
  second run is 1, the list is empty afterwards and only the hooks that were there
  before the first run's remain: none compounds.
\<close>

theorem successive_invocations_reset:
  "(apply_attention_control m aud crs slf = (ma, outa, None) \<and>
    apply_attention_control ma aud' crs' slf' = (mb, outb, None) \<longrightarrow>
      (\<forall>e\<in>set (forward_hooks mb). fst e \<notin> set (tracked_ids (attention_control_hooks ma))) \<and>
      tracked_ids (attention_control_hooks ma) = [next_id m..<next_id ma] \<and>
      tracked_ids (attention_control_hooks mb) = [next_id ma..<next_id mb] \<and>
      map fst (forward_hooks ma) =
        map fst (forward_hooks (clear_hooks [AttentionControlHooks, LipsyncSuppressHooks] m))
        @ tracked_ids (attention_control_hooks ma) \<and>
      map fst (forward_hooks mb) =
        filter (\<lambda>i. i \<notin> set (tracked_ids (attention_control_hooks ma)))
          (map fst (forward_hooks ma))
        @ tracked_ids (attention_control_hooks mb) \<and>
      (no_scaling aud' \<and> no_scaling crs' \<and> no_scaling slf' \<longrightarrow>
         attention_control_hooks mb = Some [] \<and>
         forward_hooks mb =
           filter (\<lambda>e. fst e \<notin> set (tracked_ids (attention_control_hooks ma)))
             (forward_hooks ma))) \<and>
   (boost_attention n baud bcrs bslf = (na, oa, None) \<and>
    boost_attention na baud' bcrs' bslf' = (nb, ob, None) \<longrightarrow>
      (\<forall>e\<in>set (forward_hooks nb). fst e \<notin> set (tracked_ids (attention_boost_hooks na))) \<and>
      tracked_ids (attention_boost_hooks na) = [next_id n..<next_id na] \<and>
      tracked_ids (attention_boost_hooks nb) = [next_id na..<next_id nb] \<and>
      map fst (forward_hooks na) =
        filter (\<lambda>i. i \<notin> set (tracked_ids (attention_boost_hooks n)))
          (map fst (forward_hooks n))
        @ tracked_ids (attention_boost_hooks na) \<and>
      map fst (forward_hooks nb) =
        filter (\<lambda>i. i \<notin> set (tracked_ids (attention_boost_hooks na)))
          (map fst (forward_hooks na))
        @ tracked_ids (attention_boost_hooks nb) \<and>
      (no_scaling baud' \<and> no_scaling bcrs' \<and> no_scaling bslf' \<longrightarrow>
         attention_boost_hooks nb = Some [] \<and>
         forward_hooks nb =
           filter (\<lambda>e. fst e \<notin> set (tracked_ids (attention_boost_hooks na)))
             (forward_hooks na))) \<and>
   (suppress p True f block_start block_end = (pa, ua, None) \<and>
    suppress pa True g block_from block_to = (pb, ub, None) \<longrightarrow>
      (\<forall>e\<in>set (forward_hooks pb). fst e \<notin> set (tracked_ids (lipsync_suppress_hooks pa))) \<and>
      tracked_ids (lipsync_suppress_hooks pa) = [next_id p..<next_id pa] \<and>
      tracked_ids (lipsync_suppress_hooks pb) = [next_id pa..<next_id pb] \<and>
      map fst (forward_hooks pa) =
        map fst (forward_hooks (clear_hooks [LipsyncSuppressHooks, AttentionControlHooks] p))
        @ tracked_ids (lipsync_suppress_hooks pa) \<and>
      map fst (forward_hooks pb) =
        filter (\<lambda>i. i \<notin> set (tracked_ids (lipsync_suppress_hooks pa)))
          (map fst (forward_hooks pa))
        @ tracked_ids (lipsync_suppress_hooks pb))"
proof (intro conjI impI)
  assume r: "apply_attention_control m aud crs slf = (ma, outa, None) \<and>
    apply_attention_control ma aud' crs' slf' = (mb, outb, None)"
  then have run1: "apply_attention_control m aud crs slf = (ma, outa, None)"
    and run2: "apply_attention_control ma aud' crs' slf' = (mb, outb, None)" by simp_all
  note once = control_once [OF run1]
  have ids: "set (tracked_ids (attention_control_hooks ma)) \<subseteq> {..<next_id ma}"
    unfolding once(1) by (rule upt_below)
  note after = control_after [OF once(3) ids run2]
  show "\<forall>e\<in>set (forward_hooks mb). fst e \<notin> set (tracked_ids (attention_control_hooks ma))"
    by (rule after(1))
  show "tracked_ids (attention_control_hooks ma) = [next_id m..<next_id ma]"
    by (rule once(1))
  show "tracked_ids (attention_control_hooks mb) = [next_id ma..<next_id mb]"
    by (rule control_once(1) [OF run2])
  show "map fst (forward_hooks ma) =
        map fst (forward_hooks (clear_hooks [AttentionControlHooks, LipsyncSuppressHooks] m))
        @ tracked_ids (attention_control_hooks ma)"
    by (rule once(2))
  show "map fst (forward_hooks mb) =
        filter (\<lambda>i. i \<notin> set (tracked_ids (attention_control_hooks ma)))
          (map fst (forward_hooks ma))
        @ tracked_ids (attention_control_hooks mb)"
    by (rule after(2))
  assume ns: "no_scaling aud' \<and> no_scaling crs' \<and> no_scaling slf'"
  with after(3) show "attention_control_hooks mb = Some []"
    and "forward_hooks mb =
           filter (\<lambda>e. fst e \<notin> set (tracked_ids (attention_control_hooks ma)))
             (forward_hooks ma)"
    by simp_all
next
  assume r: "boost_attention n baud bcrs bslf = (na, oa, None) \<and>
    boost_attention na baud' bcrs' bslf' = (nb, ob, None)"
  then have run1: "boost_attention n baud bcrs bslf = (na, oa, None)"
    and run2: "boost_attention na baud' bcrs' bslf' = (nb, ob, None)" by simp_all
  note once = boost_once [OF run1]
  have ids: "set (tracked_ids (attention_boost_hooks na)) \<subseteq> {..<next_id na}"
    unfolding once(1) by (rule upt_below)
  note after = boost_after [OF ids run2]
  show "\<forall>e\<in>set (forward_hooks nb). fst e \<notin> set (tracked_ids (attention_boost_hooks na))"
    by (rule after(1))
  show "tracked_ids (attention_boost_hooks na) = [next_id n..<next_id na]"
    by (rule once(1))
  show "tracked_ids (attention_boost_hooks nb) = [next_id na..<next_id nb]"
    by (rule boost_once(1) [OF run2])
  show "map fst (forward_hooks na) =
        filter (\<lambda>i. i \<notin> set (tracked_ids (attention_boost_hooks n)))
          (map fst (forward_hooks n))
        @ tracked_ids (attention_boost_hooks na)"
    by (rule once(2))
  show "map fst (forward_hooks nb) =
        filter (\<lambda>i. i \<notin> set (tracked_ids (attention_boost_hooks na)))
          (map fst (forward_hooks na))
        @ tracked_ids (attention_boost_hooks nb)"
    by (rule after(2))
  assume ns: "no_scaling baud' \<and> no_scaling bcrs' \<and> no_scaling bslf'"
  with after(3) show "attention_boost_hooks nb = Some []"
    and "forward_hooks nb =
           filter (\<lambda>e. fst e \<notin> set (tracked_ids (attention_boost_hooks na)))
             (forward_hooks na)"
    by simp_all
next
  assume r: "suppress p True f block_start block_end = (pa, ua, None) \<and>
    suppress pa True g block_from block_to = (pb, ub, None)"
  then have run1: "suppress p True f block_start block_end = (pa, ua, None)"
    and run2: "suppress pa True g block_from block_to = (pb, ub, None)" by simp_all
  note once = suppress_once [OF run1]
  have ids: "set (tracked_ids (lipsync_suppress_hooks pa)) \<subseteq> {..<next_id pa}"
    unfolding once(1) by (rule upt_below)
  note after = suppress_after [OF once(2) ids run2]
  show "\<forall>e\<in>set (forward_hooks pb). fst e \<notin> set (tracked_ids (lipsync_suppress_hooks pa))"
    by (rule after(1))
  show "tracked_ids (lipsync_suppress_hooks pa) = [next_id p..<next_id pa]"
    by (rule once(1))
  show "tracked_ids (lipsync_suppress_hooks pb) = [next_id pa..<next_id pb]"
    by (rule suppress_once(1) [OF run2])
  show "map fst (forward_hooks pa) =
        map fst (forward_hooks (clear_hooks [LipsyncSuppressHooks, AttentionControlHooks] p))
        @ tracked_ids (lipsync_suppress_hooks pa)"
    by (rule once(4))
  show "map fst (forward_hooks pb) =
        filter (\<lambda>i. i \<notin> set (tracked_ids (lipsync_suppress_hooks pa)))
          (map fst (forward_hooks pa))
        @ tracked_ids (lipsync_suppress_hooks pb)"
    by (rule after(3)) simp
qed

theorem successive_invocations_reset_witness:
  "apply_attention_control example_model (audio_v 2 ''0'') (kind_off ''0'') (kind_off ''0'')
     = (example_model\<lparr>forward_hooks := [(0, (0, Audio, Cv), ScaleHook 2)], next_id := 1,
          attention_control_hooks := Some [Handle 0 False]\<rparr>,
        [Header, Config Audio 0 0, Registered 1], None) \<and>
   apply_attention_control
       (example_model\<lparr>forward_hooks := [(0, (0, Audio, Cv), ScaleHook 2)], next_id := 1,
          attention_control_hooks := Some [Handle 0 False]\<rparr>)
       (audio_v 3 ''0'') (kind_off ''0'') (kind_off ''0'')
     = (example_model\<lparr>forward_hooks := [(1, (0, Audio, Cv), ScaleHook 3)], next_id := 2,
          attention_control_hooks := Some [Handle 1 False]\<rparr>,
        [Header, Config Audio 0 0, Registered 1], None) \<and>
   tracked_ids (Some [Handle 1 False]) = [1..<2] \<and>
   apply_attention_control
       (example_model\<lparr>forward_hooks := [(0, (0, Audio, Cv), ScaleHook 2)], next_id := 1,
          attention_control_hooks := Some [Handle 0 False]\<rparr>)
       (audio_v 1 ''0'') (kind_off ''0'') (kind_off ''0'')
     = (example_model\<lparr>forward_hooks := [], next_id := 1,
          attention_control_hooks := Some []\<rparr>,
        [Header, Config Audio 0 0, Registered 0], None) \<and>
   no_scaling (audio_v 1 ''0'') \<and> no_scaling (kind_off ''0'') \<and>
   boost_attention example_model (audio_v 2 (Some ''0'')) (kind_off None) (kind_off None)
     = (example_model\<lparr>forward_hooks := [(0, (0, Audio, Cv), BoostHook 2)], next_id := 1,
          attention_boost_hooks := Some [Handle 0 False]\<rparr>,
        [Header, Config Audio 0 0, Patched 0 Audio, Registered 1], None) \<and>
   boost_attention
       (example_model\<lparr>forward_hooks := [(0, (0, Audio, Cv), BoostHook 2)], next_id := 1,
          attention_boost_hooks := Some [Handle 0 False]\<rparr>)
       (audio_v 3 (Some ''0'')) (kind_off None) (kind_off None)
     = (example_model\<lparr>forward_hooks := [(1, (0, Audio, Cv), BoostHook 3)], next_id := 2,
          attention_boost_hooks := Some [Handle 1 False]\<rparr>,
        [RemovingOld 1, Header, Config Audio 0 0, Patched 0 Audio, Registered 1], None) \<and>
   tracked_ids (Some [Handle 1 False]) = [Suc 0..<2] \<and>
   boost_attention
       (example_model\<lparr>forward_hooks := [(0, (0, Audio, Cv), BoostHook 2)], next_id := 1,
          attention_boost_hooks := Some [Handle 0 False]\<rparr>)
       (audio_v 1 (Some ''0'')) (kind_off None) (kind_off None)
     = (example_model\<lparr>forward_hooks := [], next_id := 1,
          attention_boost_hooks := Some []\<rparr>,
        [RemovingOld 1, Header, Config Audio 0 0, Registered 0], None) \<and>
   no_scaling (audio_v 1 (Some ''0'')) \<and> no_scaling (kind_off (None :: string option)) \<and>
   suppress example_model True 0.05 0 0
     = (example_model\<lparr>forward_hooks := [(0, (0, Audio, Co), SuppressHook 0.05)], next_id := 1,
          lipsync_suppress_hooks := Some [Handle 0 False]\<rparr>,
        [SuppressBanner 0 0 0.05, PatchedBlocks 1 0 0], None) \<and>
   suppress
       (example_model\<lparr>forward_hooks := [(0, (0, Audio, Co), SuppressHook 0.05)], next_id := 1,
          lipsync_suppress_hooks := Some [Handle 0 False]\<rparr>)
       True 0.2 0 0
     = (example_model\<lparr>forward_hooks := [(1, (0, Audio, Co), SuppressHook 0.2)], next_id := 2,
          lipsync_suppress_hooks := Some [Handle 1 False]\<rparr>,
        [SuppressBanner 0 0 0.2, PatchedBlocks 1 0 0], None) \<and>
   map fst [(1::nat, (0::nat, Audio, Co), SuppressHook 0.2)]
     = filter (\<lambda>i. i \<notin> set (tracked_ids (Some [Handle 0 False]))) [0]
       @ tracked_ids (Some [Handle 1 False])"
proof -
  let ?p1 = "example_model\<lparr>forward_hooks := [(0, (0, Audio, Co), SuppressHook 0.05)], next_id := 1,
          lipsync_suppress_hooks := Some [Handle 0 False]\<rparr>"
  let ?p2 = "example_model\<lparr>forward_hooks := [(1, (0, Audio, Co), SuppressHook 0.2)], next_id := 2,
          lipsync_suppress_hooks := Some [Handle 1 False]\<rparr>"
  have u1: "suppress example_model True 0.05 0 0
     = (?p1, [SuppressBanner 0 0 0.05, PatchedBlocks 1 0 0], None)"
    by code_simp
  have u2: "suppress ?p1 True 0.2 0 0
     = (?p2, [SuppressBanner 0 0 0.2, PatchedBlocks 1 0 0], None)"
    by code_simp
  let ?c1 = "example_model\<lparr>forward_hooks := [(0, (0, Audio, Cv), ScaleHook 2)], next_id := 1,
          attention_control_hooks := Some [Handle 0 False]\<rparr>"
  let ?c2 = "example_model\<lparr>forward_hooks := [(1, (0, Audio, Cv), ScaleHook 3)], next_id := 2,
          attention_control_hooks := Some [Handle 1 False]\<rparr>"
  let ?c3 = "example_model\<lparr>forward_hooks := [], next_id := 1,
          attention_control_hooks := Some []\<rparr>"
  let ?b1 = "example_model\<lparr>forward_hooks := [(0, (0, Audio, Cv), BoostHook 2)], next_id := 1,
          attention_boost_hooks := Some [Handle 0 False]\<rparr>"
  let ?b2 = "example_model\<lparr>forward_hooks := [(1, (0, Audio, Cv), BoostHook 3)], next_id := 2,
          attention_boost_hooks := Some [Handle 1 False]\<rparr>"
  let ?b3 = "example_model\<lparr>forward_hooks := [], next_id := 1,
          attention_boost_hooks := Some []\<rparr>"
  have r1: "apply_attention_control example_model (audio_v 2 ''0'') (kind_off ''0'') (kind_off ''0'')
     = (?c1, [Header, Config Audio 0 0, Registered 1], None)"
    by code_simp
  have r2: "apply_attention_control ?c1 (audio_v 3 ''0'') (kind_off ''0'') (kind_off ''0'')
     = (?c2, [Header, Config Audio 0 0, Registered 1], None)"
    by code_simp
  have r3: "apply_attention_control ?c1 (audio_v 1 ''0'') (kind_off ''0'') (kind_off ''0'')
     = (?c3, [Header, Config Audio 0 0, Registered 0], None)"
    by code_simp
  have s1: "boost_attention example_model (audio_v 2 (Some ''0'')) (kind_off None) (kind_off None)
     = (?b1, [Header, Config Audio 0 0, Patched 0 Audio, Registered 1], None)"
    by code_simp
  have s2: "boost_attention ?b1 (audio_v 3 (Some ''0'')) (kind_off None) (kind_off None)
     = (?b2, [RemovingOld 1, Header, Config Audio 0 0, Patched 0 Audio, Registered 1], None)"
    by code_simp
  have s3: "boost_attention ?b1 (audio_v 1 (Some ''0'')) (kind_off None) (kind_off None)
     = (?b3, [RemovingOld 1, Header, Config Audio 0 0, Registered 0], None)"
    by code_simp
  have ns: "no_scaling (audio_v 1 ''0'')" "no_scaling (kind_off ''0'')"
    "no_scaling (audio_v 1 (Some ''0''))" "no_scaling (kind_off (None :: string option))"
    by (simp_all add: no_scaling_def audio_v_def kind_off_def)
  have q: "tracked_ids (attention_control_hooks ?c2) = [next_id ?c1..<next_id ?c2]"
    using successive_invocations_reset [where m = example_model and ma = ?c1 and mb = ?c2,
        THEN conjunct1] r1 r2
    by blast
  have q': "tracked_ids (attention_boost_hooks ?b2) = [next_id ?b1..<next_id ?b2]"
    using successive_invocations_reset [where n = example_model and na = ?b1 and nb = ?b2,
        THEN conjunct2, THEN conjunct1] s1 s2
    by blast
  have w: "map fst (forward_hooks ?p2) =
        filter (\<lambda>i. i \<notin> set (tracked_ids (lipsync_suppress_hooks ?p1)))
          (map fst (forward_hooks ?p1))
        @ tracked_ids (lipsync_suppress_hooks ?p2)"
    using successive_invocations_reset [where p = example_model and pa = ?p1 and pb = ?p2,
        THEN conjunct2, THEN conjunct2] u1 u2
    by blast
  have z: "attention_control_hooks ?c3 = Some []"
    using successive_invocations_reset [where m = example_model and ma = ?c1 and mb = ?c3,
        THEN conjunct1] r1 r3 ns
    by blast
  have z': "attention_boost_hooks ?b3 = Some []"
    using successive_invocations_reset [where n = example_model and na = ?b1 and nb = ?b3,
        THEN conjunct2, THEN conjunct1] s1 s3 ns
    by blast
  from q q' have "tracked_ids (Some [Handle 1 False]) = [1..<2]"
    "tracked_ids (Some [Handle 1 False]) = [Suc 0..<2]"
    by simp_all
  moreover from w have "map fst [(1::nat, (0::nat, Audio, Co), SuppressHook 0.2)]
     = filter (\<lambda>i. i \<notin> set (tracked_ids (Some [Handle 0 False]))) [0]
       @ tracked_ids (Some [Handle 1 False])"
    by simp
  ultimately show ?thesis using r1 r2 r3 s1 s2 s3 ns z z' u1 u2 by blast
qed

text \<open>
  C2 as stated fails for a second invocation that raises before its clearing step. The
  v4 node parses and prints its configuration first; on the model a first run with
  factor 2 returned, a second call with factor 1 whose range text is \<open>"x"\<close> (ValueError)
  or \<open>"5-3"\<close> (an empty selection, IndexError in the printout) ends there, and the hook
  with factor 2 is still registered and recorded.
\<close>

theorem failed_second_run_keeps_hooks:
  "apply_attention_control example_model (audio_v 2 ''0'') (kind_off ''0'') (kind_off ''0'')
     = (example_model\<lparr>forward_hooks := [(0, (0, Audio, Cv), ScaleHook 2)], next_id := 1,
          attention_control_hooks := Some [Handle 0 False]\<rparr>,
        [Header, Config Audio 0 0, Registered 1], None) \<and>
   apply_attention_control
       (example_model\<lparr>forward_hooks := [(0, (0, Audio, Cv), ScaleHook 2)], next_id := 1,
          attention_control_hooks := Some [Handle 0 False]\<rparr>)
       (audio_v 1 ''x'') (kind_off ''0'') (kind_off ''0'')
     = (example_model\<lparr>forward_hooks := [(0, (0, Audio, Cv), ScaleHook 2)], next_id := 1,
          attention_control_hooks := Some [Handle 0 False]\<rparr>,
        [], Some ValueError) \<and>
   apply_attention_control
       (example_model\<lparr>forward_hooks := [(0, (0, Audio, Cv), ScaleHook 2)], next_id := 1,
          attention_control_hooks := Some [Handle 0 False]\<rparr>)
       (audio_v 1 ''5-3'') (kind_off ''0'') (kind_off ''0'')
     = (example_model\<lparr>forward_hooks := [(0, (0, Audio, Cv), ScaleHook 2)], next_id := 1,
          attention_control_hooks := Some [Handle 0 False]\<rparr>,
        [Header], Some IndexError)"
  by code_simp

text \<open>
  C3. In \<open>suppress\<close> nothing tests the strength against 1: with strength 1 the output
  projection of a selected block gets a hook with factor 1. (For the v4 and v3 nodes
  the property holds, see \<open>control_attaches_no_identity\<close> and
  \<open>boost_attaches_no_identity\<close>.)
\<close>

theorem suppress_attaches_identity_hook:
  "suppress example_model True 1 0 0
     = (example_model\<lparr>forward_hooks := [(0, (0, Audio, Co), SuppressHook 1)], next_id := 1,
          lipsync_suppress_hooks := Some [Handle 0 False]\<rparr>,
        [SuppressBanner 0 0 1, PatchedBlocks 1 0 0], None)"
  by code_simp

text \<open>
  C5. In \<open>suppress\<close> an index at or beyond the number of blocks is skipped without any
  message (on two blocks, the range 0 to 2 prints nothing about block 2), and when
  every requested index is skipped the closing printout raises IndexError (the range 6
  to 24 on two blocks). The v4 and v3 nodes behave as claimed, see
  \<open>control_block_out_of_range\<close> and \<open>boost_block_out_of_range\<close>.
\<close>

theorem suppress_out_of_range:
  "suppress example_model True 0.05 0 2
     = (example_model\<lparr>forward_hooks := [(0, (0, Audio, Co), SuppressHook 0.05),
                                          (1, (1, Audio, Co), SuppressHook 0.05)],
          next_id := 2, lipsync_suppress_hooks := Some [Handle 0 False, Handle 1 False]\<rparr>,
        [SuppressBanner 0 2 0.05, PatchedBlocks 2 0 1], None) \<and>
   suppress example_model True 0.05 6 24
     = (example_model, [SuppressBanner 6 24 0.05], Some IndexError)"
  by code_simp

text \<open>
  C6, amended. When \<open>suppress\<close> runs with \<open>enabled\<close> true on the model a normal run of
  \<open>apply_attention_control\<close> returned, no hook left afterwards has an id the control run
  recorded, and the control list is empty; when it returns normally, the hooks on the
  model are the survivors followed by exactly those it recorded itself. The same holds
  with the roles exchanged, for a normal run of \<open>apply_attention_control\<close> after a
  normal run of the enabled \<open>suppress\<close>.
\<close>

theorem mutually_exclusive_when_enabled:
  "(apply_attention_control m aud crs slf = (ma, outa, None) \<and>
    suppress ma True f block_start block_end = (mb, outb, r) \<longrightarrow>
      (\<forall>e\<in>set (forward_hooks mb). fst e \<notin> set (tracked_ids (attention_control_hooks ma))) \<and>
      attention_control_hooks mb = Some [] \<and>
      (r = None \<longrightarrow>
         map fst (forward_hooks mb) =
           filter (\<lambda>i. i \<notin> set (tracked_ids (attention_control_hooks ma)))
             (map fst (forward_hooks ma))
           @ tracked_ids (lipsync_suppress_hooks mb))) \<and>
   (suppress n True g block_from block_to = (na, oa, None) \<and>
    apply_attention_control na aud' crs' slf' = (nb, ob, None) \<longrightarrow>
      (\<forall>e\<in>set (forward_hooks nb). fst e \<notin> set (tracked_ids (lipsync_suppress_hooks na))) \<and>
      lipsync_suppress_hooks nb = Some [] \<and>
      map fst (forward_hooks nb) =
        filter (\<lambda>i. i \<notin> set (tracked_ids (lipsync_suppress_hooks na)))
          (map fst (forward_hooks na))
        @ tracked_ids (attention_control_hooks nb))"
proof (intro conjI impI)
  assume "apply_attention_control m aud crs slf = (ma, outa, None) \<and>
    suppress ma True f block_start block_end = (mb, outb, r)"
  then have run1: "apply_attention_control m aud crs slf = (ma, outa, None)"
    and run2: "suppress ma True f block_start block_end = (mb, outb, r)" by simp_all
  note once = control_once [OF run1]
  have ids: "set (tracked_ids (attention_control_hooks ma)) \<subseteq> {..<next_id ma}"
    unfolding once(1) by (rule upt_below)
  note after = suppress_after [OF once(3) ids run2]
  show "\<forall>e\<in>set (forward_hooks mb). fst e \<notin> set (tracked_ids (attention_control_hooks ma))"
    by (rule after(1))
  show "attention_control_hooks mb = Some []"
    using after(2) once(5) by auto
  assume "r = None"
  then show "map fst (forward_hooks mb) =
           filter (\<lambda>i. i \<notin> set (tracked_ids (attention_control_hooks ma)))
             (map fst (forward_hooks ma))
           @ tracked_ids (lipsync_suppress_hooks mb)"
    by (rule after(3))
next
  assume "suppress n True g block_from block_to = (na, oa, None) \<and>
    apply_attention_control na aud' crs' slf' = (nb, ob, None)"
  then have run1: "suppress n True g block_from block_to = (na, oa, None)"
    and run2: "apply_attention_control na aud' crs' slf' = (nb, ob, None)" by simp_all
  note once = suppress_once [OF run1]
  have ids: "set (tracked_ids (lipsync_suppress_hooks na)) \<subseteq> {..<next_id na}"
    unfolding once(1) by (rule upt_below)
  note after = control_after [OF once(2) ids run2]
  show "\<forall>e\<in>set (forward_hooks nb). fst e \<notin> set (tracked_ids (lipsync_suppress_hooks na))"
    by (rule after(1))
  show "lipsync_suppress_hooks nb = Some []"
    using control_once(4) [OF run2] once(3) by auto
  show "map fst (forward_hooks nb) =
        filter (\<lambda>i. i \<notin> set (tracked_ids (lipsync_suppress_hooks na)))
          (map fst (forward_hooks na))
        @ tracked_ids (attention_control_hooks nb)"
    by (rule after(2))
qed

theorem mutually_exclusive_when_enabled_witness:
  "apply_attention_control example_model (audio_v 2 ''0'') (kind_off ''0'') (kind_off ''0'')
     = (example_model\<lparr>forward_hooks := [(0, (0, Audio, Cv), ScaleHook 2)], next_id := 1,
          attention_control_hooks := Some [Handle 0 False]\<rparr>,
        [Header, Config Audio 0 0, Registered 1], None) \<and>
   suppress
       (example_model\<lparr>forward_hooks := [(0, (0, Audio, Cv), ScaleHook 2)], next_id := 1,
          attention_control_hooks := Some [Handle 0 False]\<rparr>)
       True 0.05 0 0
     = (example_model\<lparr>forward_hooks := [(1, (0, Audio, Co), SuppressHook 0.05)], next_id := 2,
          attention_control_hooks := Some [], lipsync_suppress_hooks := Some [Handle 1 False]\<rparr>,
        [SuppressBanner 0 0 0.05, PatchedBlocks 1 0 0], None) \<and>
   map fst [(1::nat, (0::nat, Audio, Co), SuppressHook 0.05)]
     = filter (\<lambda>i. i \<notin> set (tracked_ids (Some [Handle 0 False]))) [0]
       @ tracked_ids (Some [Handle 1 False]) \<and>
   suppress example_model True 0.05 0 0
     = (example_model\<lparr>forward_hooks := [(0, (0, Audio, Co), SuppressHook 0.05)], next_id := 1,
          lipsync_suppress_hooks := Some [Handle 0 False]\<rparr>,
        [SuppressBanner 0 0 0.05, PatchedBlocks 1 0 0], None) \<and>
   apply_attention_control
       (example_model\<lparr>forward_hooks := [(0, (0, Audio, Co), SuppressHook 0.05)], next_id := 1,
          lipsync_suppress_hooks := Some [Handle 0 False]\<rparr>)
       (audio_v 3 ''0'') (kind_off ''0'') (kind_off ''0'')
     = (example_model\<lparr>forward_hooks := [(1, (0, Audio, Cv), ScaleHook 3)], next_id := 2,
          attention_control_hooks := Some [Handle 1 False], lipsync_suppress_hooks := Some []\<rparr>,
        [Header, Config Audio 0 0, Registered 1], None) \<and>
   map fst [(1::nat, (0::nat, Audio, Cv), ScaleHook 3)]
     = filter (\<lambda>i. i \<notin> set (tracked_ids (Some [Handle 0 False]))) [0]
       @ tracked_ids (Some [Handle 1 False])"
proof -
  let ?c1 = "example_model\<lparr>forward_hooks := [(0, (0, Audio, Cv), ScaleHook 2)], next_id := 1,
          attention_control_hooks := Some [Handle 0 False]\<rparr>"
  let ?c2 = "example_model\<lparr>forward_hooks := [(1, (0, Audio, Co), SuppressHook 0.05)], next_id := 2,
          attention_control_hooks := Some [], lipsync_suppress_hooks := Some [Handle 1 False]\<rparr>"
  let ?s1 = "example_model\<lparr>forward_hooks := [(0, (0, Audio, Co), SuppressHook 0.05)], next_id := 1,
          lipsync_suppress_hooks := Some [Handle 0 False]\<rparr>"
  let ?s2 = "example_model\<lparr>forward_hooks := [(1, (0, Audio, Cv), ScaleHook 3)], next_id := 2,
          attention_control_hooks := Some [Handle 1 False], lipsync_suppress_hooks := Some []\<rparr>"
  have r1: "apply_attention_control example_model (audio_v 2 ''0'') (kind_off ''0'') (kind_off ''0'')
     = (?c1, [Header, Config Audio 0 0, Registered 1], None)"
    by code_simp
  have r2: "suppress ?c1 True 0.05 0 0 = (?c2, [SuppressBanner 0 0 0.05, PatchedBlocks 1 0 0], None)"
    by code_simp
  have s1: "suppress example_model True 0.05 0 0
     = (?s1, [SuppressBanner 0 0 0.05, PatchedBlocks 1 0 0], None)"
    by code_simp
  have s2: "apply_attention_control ?s1 (audio_v 3 ''0'') (kind_off ''0'') (kind_off ''0'')
     = (?s2, [Header, Config Audio 0 0, Registered 1], None)"
    by code_simp
  have q: "map fst (forward_hooks ?c2) =
           filter (\<lambda>i. i \<notin> set (tracked_ids (attention_control_hooks ?c1)))
             (map fst (forward_hooks ?c1))
           @ tracked_ids (lipsync_suppress_hooks ?c2)"
    "map fst (forward_hooks ?s2) =
        filter (\<lambda>i. i \<notin> set (tracked_ids (lipsync_suppress_hooks ?s1)))
          (map fst (forward_hooks ?s1))
        @ tracked_ids (attention_control_hooks ?s2)"
    using mutually_exclusive_when_enabled [where m = example_model and ma = ?c1 and mb = ?c2
        and n = example_model and na = ?s1 and nb = ?s2] r1 r2 s1 s2
    by blast+
  then have "map fst [(1::nat, (0::nat, Audio, Co), SuppressHook 0.05)]
     = filter (\<lambda>i. i \<notin> set (tracked_ids (Some [Handle 0 False]))) [0]
       @ tracked_ids (Some [Handle 1 False])"
    "map fst [(1::nat, (0::nat, Audio, Cv), ScaleHook 3)]
     = filter (\<lambda>i. i \<notin> set (tracked_ids (Some [Handle 0 False]))) [0]
       @ tracked_ids (Some [Handle 1 False])"
    by simp_all
  with r1 r2 s1 s2 show ?thesis by blast
qed

text \<open>
  C6 as stated fails when \<open>suppress\<close> is invoked with \<open>enabled\<close> false: it returns at once,
  and the hook the control run attached stays registered and recorded.
\<close>

theorem disabled_suppress_keeps_control_hooks:
  "apply_attention_control example_model (audio_v 2 ''0'') (kind_off ''0'') (kind_off ''0'')
     = (example_model\<lparr>forward_hooks := [(0, (0, Audio, Cv), ScaleHook 2)], next_id := 1,
          attention_control_hooks := Some [Handle 0 False]\<rparr>,
        [Header, Config Audio 0 0, Registered 1], None) \<and>
   suppress
       (example_model\<lparr>forward_hooks := [(0, (0, Audio, Cv), ScaleHook 2)], next_id := 1,
          attention_control_hooks := Some [Handle 0 False]\<rparr>)
       False 0.05 0 0
     = (example_model\<lparr>forward_hooks := [(0, (0, Audio, Cv), ScaleHook 2)], next_id := 1,
          attention_control_hooks := Some [Handle 0 False]\<rparr>,
        [], None)"
  by code_simp

text \<open>
  C7. \<open>boost_attention\<close> removes the old hooks outside any \<open>try\<close>: a recorded handle whose
  removal fails ends the procedure with that exception, before anything is parsed or
  attached. The same model goes through \<open>apply_attention_control\<close> and \<open>suppress\<close>, whose
  clearing steps pass over such a handle (\<open>clear_hooks_passes_invalid\<close>).
\<close>

theorem boost_cleanup_raises:
  "boost_attention (example_model\<lparr>attention_boost_hooks := Some [Handle 7 True]\<rparr>)
       (audio_v 2 (Some ''0'')) (kind_off None) (kind_off None)
     = (example_model\<lparr>attention_boost_hooks := Some [Handle 7 True]\<rparr>,
        [RemovingOld 1], Some HookInvalid)"
  by code_simp

lemma control_tolerates_invalid_handle:
  "apply_attention_control (example_model\<lparr>attention_control_hooks := Some [Handle 7 True]\<rparr>)
       (audio_v 2 ''0'') (kind_off ''0'') (kind_off ''0'')
     = (example_model\<lparr>forward_hooks := [(0, (0, Audio, Cv), ScaleHook 2)], next_id := 1,
          attention_control_hooks := Some [Handle 0 False]\<rparr>,
        [Header, Config Audio 0 0, Registered 1], None)"
  by code_simp

end
